theory Spec2Isabelle
  imports Main "HOL-Library.Sublist" "HOL-Library.Char_ord" "HOL-Library.List_Lexorder"
begin

section \<open>SpeedClone: a shallow embedding of speedclone.py\<close>

text \<open>
  The program bootstraps a working directory from a GitHub snapshot archive. Its effects
  are network requests and filesystem writes. Both are explicit here: the network is a
  transport function answering the n-th request, the filesystem is a map from absolute
  paths to nodes, and every exception of the source is a value of type \<open>exn\<close>.
  Python \<open>str\<close> values are modelled as \<open>string\<close> (non-ASCII text as its UTF-8 bytes).
\<close>

unbundle bit_operations_syntax

subsection \<open>Python string operations\<close>

text \<open>\<open>s.split(c)\<close>: the pieces between the occurrences of \<open>c\<close>, never an empty list.\<close>

fun split_on :: "char \<Rightarrow> string \<Rightarrow> string list" where
  "split_on c [] = [[]]"
| "split_on c (x # xs) =
     (if x = c then [] # split_on c xs
      else (case split_on c xs of [] \<Rightarrow> [[x]] | y # ys \<Rightarrow> (x # y) # ys))"

text \<open>\<open>"; ".join(xs)\<close> and friends.\<close>

fun join :: "string \<Rightarrow> string list \<Rightarrow> string" where
  "join sep [] = []"
| "join sep [x] = x"
| "join sep (x # y # ys) = x @ sep @ join sep (y # ys)"

text \<open>\<open>needle in haystack\<close> for strings.\<close>

fun contains :: "string \<Rightarrow> string \<Rightarrow> bool" where
  "contains n [] = (n = [])"
| "contains n (x # xs) = (prefix n (x # xs) \<or> contains n xs)"

text \<open>\<open>s.lower()\<close> and case-insensitive comparison, on ASCII letters.\<close>

definition lower_char :: "char \<Rightarrow> char" where
  "lower_char c =
     (if CHR ''A'' \<le> c \<and> c \<le> CHR ''Z'' then char_of (of_char c + (32::nat)) else c)"

definition lower :: "string \<Rightarrow> string" where
  "lower s = map lower_char s"

text \<open>\<open>s.rstrip('/')\<close>.\<close>

definition rstrip_slash :: "string \<Rightarrow> string" where
  "rstrip_slash s = rev (dropWhile (\<lambda>c. c = CHR ''/'') (rev s))"

subsection \<open>Exceptions\<close>

text \<open>
  The exceptions that derive from \<open>Exception\<close>, each with its message. The filesystem
  errors carry the path the call was given.
\<close>

datatype exn =
    RuntimeError string
  | ValueError string
  | KeyError string
  | TypeError string
  | UnicodeEncodeError string
  | URLError string
  | ReadError string
  | StreamError string
  | BadZipFile string
  | FileNotFoundError "string list"
  | FileExistsError "string list"
  | NotADirectoryError "string list"
  | IsADirectoryError "string list"

text \<open>The messages of the program, as the bytes of their UTF-8 encoding.\<close>

definition msg_github_only :: string where
  "msg_github_only = ''GitHub HTTPS URL'' @ [CHR 0xE3, CHR 0x81, CHR 0xAE, CHR 0xE3,
     CHR 0x81, CHR 0xBF, CHR 0xE5, CHR 0xAF, CHR 0xBE, CHR 0xE5, CHR 0xBF, CHR 0x9C,
     CHR 0xE3, CHR 0x81, CHR 0x97, CHR 0xE3, CHR 0x81, CHR 0xA6, CHR 0xE3, CHR 0x81,
     CHR 0x84, CHR 0xE3, CHR 0x81, CHR 0xBE, CHR 0xE3, CHR 0x81, CHR 0x99, CHR 0xE3,
     CHR 0x80, CHR 0x82]"

definition msg_bad_url :: string where
  "msg_bad_url = [CHR 0xE4, CHR 0xB8, CHR 0x8D, CHR 0xE6, CHR 0xAD, CHR 0xA3,
     CHR 0xE3, CHR 0x81, CHR 0xAA] @ ''URL'' @ [CHR 0xE3, CHR 0x81, CHR 0xA7,
     CHR 0xE3, CHR 0x81, CHR 0x99, CHR 0xE3, CHR 0x80, CHR 0x82]"

definition msg_html_failed :: string where
  "msg_html_failed = ''HTML'' @ [CHR 0xE3, CHR 0x81, CHR 0x8B, CHR 0xE3, CHR 0x82,
     CHR 0x89, CHR 0xE6, CHR 0x9C, CHR 0x80, CHR 0xE6, CHR 0x96, CHR 0xB0] @ ''SHA'' @
     [CHR 0xE3, CHR 0x82, CHR 0x92, CHR 0xE5, CHR 0x8F, CHR 0x96, CHR 0xE5, CHR 0xBE,
     CHR 0x97, CHR 0xE3, CHR 0x81, CHR 0xA7, CHR 0xE3, CHR 0x81, CHR 0x8D, CHR 0xE3,
     CHR 0x81, CHR 0xBE, CHR 0xE3, CHR 0x81, CHR 0x9B, CHR 0xE3, CHR 0x82, CHR 0x93,
     CHR 0xE3, CHR 0x81, CHR 0xA7, CHR 0xE3, CHR 0x81, CHR 0x97, CHR 0xE3, CHR 0x81,
     CHR 0x9F, CHR 0xE3, CHR 0x80, CHR 0x82]"

definition msg_tar_malformed :: string where
  "msg_tar_malformed = ''tar'' @ [CHR 0xE3, CHR 0x81, CHR 0xAE, CHR 0xE8, CHR 0xA7,
     CHR 0xA3, CHR 0xE5, CHR 0x87, CHR 0x8D, CHR 0xE6, CHR 0x99, CHR 0x82, CHR 0xE3,
     CHR 0x81, CHR 0xAB, CHR 0xE3, CHR 0x82, CHR 0xA8, CHR 0xE3, CHR 0x83, CHR 0xA9,
     CHR 0xE3, CHR 0x83, CHR 0xBC] @ '': '' @ [CHR 0xE6, CHR 0xA7, CHR 0x8B, CHR 0xE9,
     CHR 0x80, CHR 0xA0, CHR 0xE3, CHR 0x81, CHR 0x8C, CHR 0xE4, CHR 0xB8, CHR 0x8D,
     CHR 0xE6, CHR 0xAD, CHR 0xA3, CHR 0xE3, CHR 0x81, CHR 0xA7, CHR 0xE3, CHR 0x81,
     CHR 0x99, CHR 0xE3, CHR 0x80, CHR 0x82]"

definition msg_empty_response :: string where
  "msg_empty_response = [CHR 0xE7, CHR 0xA9, CHR 0xBA, CHR 0xE3, CHR 0x81, CHR 0xAE,
     CHR 0xE5, CHR 0xBF, CHR 0x9C, CHR 0xE7, CHR 0xAD, CHR 0x94, CHR 0xE3, CHR 0x81,
     CHR 0x8C, CHR 0xE8, CHR 0xBF, CHR 0x94, CHR 0xE3, CHR 0x81, CHR 0x95, CHR 0xE3,
     CHR 0x82, CHR 0x8C, CHR 0xE3, CHR 0x81, CHR 0xBE, CHR 0xE3, CHR 0x81, CHR 0x97,
     CHR 0xE3, CHR 0x81, CHR 0x9F, CHR 0xE3, CHR 0x80, CHR 0x82]"

definition msg_snapshot_failed :: string where
  "msg_snapshot_failed = [CHR 0xE3, CHR 0x82, CHR 0xB9, CHR 0xE3, CHR 0x83, CHR 0x8A,
     CHR 0xE3, CHR 0x83, CHR 0x83, CHR 0xE3, CHR 0x83, CHR 0x97, CHR 0xE3, CHR 0x82,
     CHR 0xB7, CHR 0xE3, CHR 0x83, CHR 0xA7, CHR 0xE3, CHR 0x83, CHR 0x83, CHR 0xE3,
     CHR 0x83, CHR 0x88, CHR 0xE3, CHR 0x81, CHR 0xAE, CHR 0xE3, CHR 0x83, CHR 0x80,
     CHR 0xE3, CHR 0x82, CHR 0xA6, CHR 0xE3, CHR 0x83, CHR 0xB3, CHR 0xE3, CHR 0x83,
     CHR 0xAD, CHR 0xE3, CHR 0x83, CHR 0xBC, CHR 0xE3, CHR 0x83, CHR 0x89, CHR 0xE3,
     CHR 0x81, CHR 0xAB, CHR 0xE5, CHR 0xA4, CHR 0xB1, CHR 0xE6, CHR 0x95, CHR 0x97,
     CHR 0xE3, CHR 0x81, CHR 0x97, CHR 0xE3, CHR 0x81, CHR 0xBE, CHR 0xE3, CHR 0x81,
     CHR 0x97, CHR 0xE3, CHR 0x81, CHR 0x9F] @ '': ''"

definition msg_dir_exists :: string where
  "msg_dir_exists = ''[yellow](!)[/yellow] '' @ [CHR 0xE3, CHR 0x83, CHR 0x87,
     CHR 0xE3, CHR 0x82, CHR 0xA3, CHR 0xE3, CHR 0x83, CHR 0xAC, CHR 0xE3, CHR 0x82,
     CHR 0xAF, CHR 0xE3, CHR 0x83, CHR 0x88, CHR 0xE3, CHR 0x83, CHR 0xAA, CHR 0xE3,
     CHR 0x81, CHR 0x8C, CHR 0xE6, CHR 0x97, CHR 0xA2, CHR 0xE3, CHR 0x81, CHR 0xAB,
     CHR 0xE5, CHR 0xAD, CHR 0x98, CHR 0xE5, CHR 0x9C, CHR 0xA8, CHR 0xE3, CHR 0x81,
     CHR 0x97, CHR 0xE3, CHR 0x81, CHR 0xA6, CHR 0xE3, CHR 0x81, CHR 0x84, CHR 0xE3,
     CHR 0x81, CHR 0xBE, CHR 0xE3, CHR 0x81, CHR 0x99] @ '': ''"

definition msg_exception :: string where
  "msg_exception = ''[red](!)[/red] '' @ [CHR 0xE4, CHR 0xBE, CHR 0x8B, CHR 0xE5,
     CHR 0xA4, CHR 0x96, CHR 0xE3, CHR 0x81, CHR 0x8C, CHR 0xE7, CHR 0x99, CHR 0xBA,
     CHR 0xE7, CHR 0x94, CHR 0x9F, CHR 0xE3, CHR 0x81, CHR 0x97, CHR 0xE3, CHR 0x81,
     CHR 0xBE, CHR 0xE3, CHR 0x81, CHR 0x97, CHR 0xE3, CHR 0x81, CHR 0x9F] @ '':''"

text \<open>
  What a call can raise: an \<open>Exception\<close>, which the handlers of the program catch, or
  \<open>SystemExit\<close>, which derives from \<open>BaseException\<close> only and passes through every
  \<open>except Exception\<close>.
\<close>

datatype raised = SystemExit string | Exception exn

subsection \<open>Repository Locator: \<open>_owner_repo\<close>\<close>

text \<open>
  \<open>urllib.parse.urlparse\<close>, reduced to the two fields the program reads, \<open>netloc\<close> and
  \<open>path\<close>: an optional scheme up to the first colon, an authority after \<open>//\<close> up to the
  first of \<open>/ ? #\<close>, then the path up to the fragment, the query and (for the schemes
  that take them) the parameters of the last segment. The library's stripping of control
  characters and its validation of bracketed hosts are not modelled.
\<close>

definition is_alpha :: "char \<Rightarrow> bool" where
  "is_alpha c = ((CHR ''a'' \<le> c \<and> c \<le> CHR ''z'') \<or> (CHR ''A'' \<le> c \<and> c \<le> CHR ''Z''))"

definition is_digit :: "char \<Rightarrow> bool" where
  "is_digit c = (CHR ''0'' \<le> c \<and> c \<le> CHR ''9'')"

definition is_scheme_char :: "char \<Rightarrow> bool" where
  "is_scheme_char c = (is_alpha c \<or> is_digit c \<or> c = CHR ''+'' \<or> c = CHR ''-'' \<or> c = CHR ''.'')"

definition uses_params :: "string list" where
  "uses_params = ['''', ''ftp'', ''hdl'', ''prospero'', ''http'', ''imap'', ''https'', ''shttp'',
     ''rtsp'', ''rtspu'', ''sip'', ''sips'', ''mms'', ''sftp'', ''tel'']"

definition split_scheme :: "string \<Rightarrow> string \<times> string" where
  "split_scheme url =
     (let s = takeWhile (\<lambda>c. c \<noteq> CHR '':'') url in
      if length s < length url \<and> s \<noteq> [] \<and> is_alpha (hd url) \<and> list_all is_scheme_char s
      then (lower s, drop (length s + 1) url)
      else ([], url))"

definition split_netloc :: "string \<Rightarrow> string \<times> string" where
  "split_netloc url =
     (if take 2 url = ''//''
      then (let rest = drop 2 url;
                n = takeWhile (\<lambda>c. c \<noteq> CHR ''/'' \<and> c \<noteq> CHR ''?'' \<and> c \<noteq> CHR ''#'') rest
            in (n, drop (length n) rest))
      else ([], url))"

definition strip_params :: "string \<Rightarrow> string" where
  "strip_params url =
     (let tail = rev (takeWhile (\<lambda>c. c \<noteq> CHR ''/'') (rev url))
      in take (length url - length tail) url @ takeWhile (\<lambda>c. c \<noteq> CHR '';'') tail)"

definition urlparse :: "string \<Rightarrow> string \<times> string" where
  "urlparse url =
     (let (scheme, u1) = split_scheme url;
          (netloc, u2) = split_netloc u1;
          u3 = takeWhile (\<lambda>c. c \<noteq> CHR ''#'') u2;
          u4 = takeWhile (\<lambda>c. c \<noteq> CHR ''?'') u3
      in (netloc, if scheme \<in> set uses_params then strip_params u4 else u4))"

text \<open>
  \<open>_owner_repo\<close> (lines 26-33). Both rejections raise \<open>SystemExit\<close>. \<open>parts[-2]\<close> and
  \<open>parts[-1]\<close> are read only when there are two parts; \<open>repo[:-4]\<close> drops the last four
  characters.
\<close>

definition owner_repo :: "string \<Rightarrow> raised + (string \<times> string)" where
  "owner_repo url =
     (let (netloc, path) = urlparse url in
      if \<not> contains ''github.com'' (lower netloc) then Inl (SystemExit msg_github_only)
      else
        (let parts = filter (\<lambda>p. p \<noteq> []) (split_on CHR ''/'' path) in
         if length parts < 2 then Inl (SystemExit msg_bad_url)
         else
           (let owner = parts ! (length parts - 2);
                repo = parts ! (length parts - 1);
                repo = (if suffix ''.git'' repo then take (length repo - 4) repo else repo)
            in Inr (owner, repo))))"

subsection \<open>Paths and the filesystem\<close>

text \<open>
  A \<open>pathlib.Path\<close> is modelled by the list of its components; every path of the model is
  absolute, as the destination is once resolved. \<open>pathlib\<close> drops empty and \<open>.\<close> components
  when it parses a string and keeps \<open>..\<close>. Joining with an absolute string replaces the
  base. (A string starting with exactly two slashes keeps both in \<open>pathlib\<close>; the model
  treats it like any other absolute string.)
\<close>

type_synonym path = "string list"

definition path_parts :: "string \<Rightarrow> string list" where
  "path_parts s = filter (\<lambda>c. c \<noteq> [] \<and> c \<noteq> ''.'') (split_on CHR ''/'' s)"

definition join_path :: "path \<Rightarrow> string \<Rightarrow> path" where
  "join_path base rel =
     (if rel \<noteq> [] \<and> hd rel = CHR ''/'' then path_parts rel else base @ path_parts rel)"

text \<open>\<open>str(p)\<close> and \<open>p.parent\<close>.\<close>

definition str_path :: "path \<Rightarrow> string" where
  "str_path p = (if p = [] then ''/'' else concat (map (\<lambda>c. CHR ''/'' # c) p))"

definition parent :: "path \<Rightarrow> path" where
  "parent p = butlast p"

text \<open>
  The filesystem holds directories and regular files, a file with its content and the
  permission bits set by \<open>chmod\<close> (\<open>None\<close> while it has the mode it was created with).
  There are no symbolic links: the program creates none. Keys are normal paths (no \<open>..\<close>).
\<close>

datatype node = Dir | File string "int option"

type_synonym fs = "path \<Rightarrow> node option"

text \<open>One step of path resolution, and \<open>Path.resolve(strict=False)\<close> without links.\<close>

definition step :: "path \<Rightarrow> string \<Rightarrow> path" where
  "step cur c = (if c = ''..'' then butlast cur else cur @ [c])"

definition resolve :: "path \<Rightarrow> path" where
  "resolve p = foldl step [] p"

text \<open>
  The kernel's own resolution: every component is looked up in a directory that must exist.
  \<open>lookup_dir\<close> walks the components from \<open>cur\<close> and gives the directory reached.
\<close>

fun lookup_dir :: "fs \<Rightarrow> path \<Rightarrow> path \<Rightarrow> string list \<Rightarrow> exn + path" where
  "lookup_dir fs whole cur [] =
     (case fs cur of
        Some Dir \<Rightarrow> Inr cur
      | Some (File _ _) \<Rightarrow> Inl (NotADirectoryError whole)
      | None \<Rightarrow> Inl (FileNotFoundError whole))"
| "lookup_dir fs whole cur (c # cs) =
     (case fs cur of
        Some Dir \<Rightarrow> lookup_dir fs whole (step cur c) cs
      | Some (File _ _) \<Rightarrow> Inl (NotADirectoryError whole)
      | None \<Rightarrow> Inl (FileNotFoundError whole))"

text \<open>
  The node a whole path names: its parent directory is resolved, then the last component
  is taken in it (the root for the empty path).
\<close>

definition target :: "fs \<Rightarrow> path \<Rightarrow> exn + path" where
  "target fs p =
     (if p = [] then Inr []
      else (case lookup_dir fs p [] (butlast p) of
              Inl e \<Rightarrow> Inl e
            | Inr d \<Rightarrow> Inr (step d (last p))))"

text \<open>\<open>os.mkdir(p)\<close>: the parent must resolve, the node must not exist.\<close>

definition os_mkdir :: "fs \<Rightarrow> path \<Rightarrow> exn + fs" where
  "os_mkdir fs p =
     (case target fs p of
        Inl e \<Rightarrow> Inl e
      | Inr t \<Rightarrow> (case fs t of
                   None \<Rightarrow> Inr (fs(t \<mapsto> Dir))
                 | Some _ \<Rightarrow> Inl (FileExistsError p)))"

text \<open>\<open>p.is_dir()\<close> and \<open>p.exists()\<close>: false on any error.\<close>

definition is_dir :: "fs \<Rightarrow> path \<Rightarrow> bool" where
  "is_dir fs p = (case target fs p of Inl _ \<Rightarrow> False | Inr t \<Rightarrow> fs t = Some Dir)"

definition exists_path :: "fs \<Rightarrow> path \<Rightarrow> bool" where
  "exists_path fs p = (case target fs p of Inl _ \<Rightarrow> False | Inr t \<Rightarrow> fs t \<noteq> None)"

text \<open>
  \<open>Path.mkdir(parents=True, exist_ok=True)\<close>, as \<open>pathlib\<close> writes it: try \<open>os.mkdir\<close>; on
  \<open>FileNotFoundError\<close> make the parent the same way and try once more; on any other
  \<open>OSError\<close> accept the path if it is a directory. The filesystem is returned in both
  outcomes, since the parents made before a failure stay.
\<close>

definition mkdir_once :: "fs \<Rightarrow> path \<Rightarrow> exn option \<times> fs" where
  "mkdir_once fs p =
     (case os_mkdir fs p of
        Inr fs' \<Rightarrow> (None, fs')
      | Inl (FileNotFoundError q) \<Rightarrow> (Some (FileNotFoundError q), fs)
      | Inl e \<Rightarrow> (if is_dir fs p then (None, fs) else (Some e, fs)))"

function mkdir_parents :: "fs \<Rightarrow> path \<Rightarrow> exn option \<times> fs" where
  "mkdir_parents fs p =
     (case os_mkdir fs p of
        Inr fs' \<Rightarrow> (None, fs')
      | Inl (FileNotFoundError q) \<Rightarrow>
          (if p = [] then (Some (FileNotFoundError q), fs)
           else (case mkdir_parents fs (parent p) of
                   (Some e, fs1) \<Rightarrow> (Some e, fs1)
                 | (None, fs1) \<Rightarrow> mkdir_once fs1 p))
      | Inl e \<Rightarrow> (if is_dir fs p then (None, fs) else (Some e, fs)))"
  by pat_completeness auto
termination
  by (relation "measure (\<lambda>(fs, p). length p)") (auto simp: parent_def)

declare mkdir_parents.simps [simp del]

text \<open>
  \<open>open(p, "wb")\<close> creates or truncates the file; a truncated file keeps its mode.
  \<open>f.write(data)\<close> and \<open>os.chmod\<close> then act on the file just opened.
\<close>

definition open_wb :: "fs \<Rightarrow> path \<Rightarrow> exn + (path \<times> fs)" where
  "open_wb fs p =
     (case target fs p of
        Inl e \<Rightarrow> Inl e
      | Inr t \<Rightarrow> (case fs t of
                   None \<Rightarrow> Inr (t, fs(t \<mapsto> File [] None))
                 | Some (File _ m) \<Rightarrow> Inr (t, fs(t \<mapsto> File [] m))
                 | Some Dir \<Rightarrow> Inl (IsADirectoryError p)))"

definition write_data :: "fs \<Rightarrow> path \<Rightarrow> string \<Rightarrow> fs" where
  "write_data fs t data =
     (case fs t of Some (File _ m) \<Rightarrow> fs(t \<mapsto> File data m) | _ \<Rightarrow> fs)"

definition chmod :: "fs \<Rightarrow> path \<Rightarrow> int \<Rightarrow> fs" where
  "chmod fs t perm =
     (case fs t of Some (File d _) \<Rightarrow> fs(t \<mapsto> File d (Some perm)) | _ \<Rightarrow> fs)"

text \<open>\<open>Path.write_text(data)\<close>: open, write, close.\<close>

definition write_text :: "fs \<Rightarrow> path \<Rightarrow> string \<Rightarrow> exn option \<times> fs" where
  "write_text fs p data =
     (case open_wb fs p of
        Inl e \<Rightarrow> (Some e, fs)
      | Inr (t, fs') \<Rightarrow> (None, write_data fs' t data))"

text \<open>
  \<open>_is_within\<close> (lines 55-61). Without links and with names free of NUL (both archive
  readers cut a name at its first NUL) \<open>resolve\<close> does not raise, so the handler that
  answers \<open>False\<close> is never entered.
\<close>

definition is_within :: "path \<Rightarrow> path \<Rightarrow> bool" where
  "is_within base tgt = prefix (str_path (resolve base) @ ''/'') (str_path (resolve tgt))"

subsection \<open>Archives\<close>

text \<open>
  An open \<open>tarfile.TarFile\<close> is its member list and the mode it was opened in. A member has
  one type: \<open>isfile()\<close> holds of \<open>RegType\<close>, \<open>isdir()\<close> of \<open>DirType\<close>, \<open>issym()\<close> of \<open>SymType\<close>,
  \<open>islnk()\<close> of \<open>LnkType\<close> (a hard link), none of them of \<open>OtherType\<close> (devices, FIFOs).
\<close>

datatype tar_kind = RegType | DirType | SymType | LnkType | OtherType

record tar_member =
  name :: string
  kind :: tar_kind
  mode :: int
  content :: string

record tarfile =
  streamed :: bool
  members :: "tar_member list"

definition isdir :: "tar_member \<Rightarrow> bool" where "isdir m = (kind m = DirType)"
definition isfile :: "tar_member \<Rightarrow> bool" where "isfile m = (kind m = RegType)"
definition issym :: "tar_member \<Rightarrow> bool" where "issym m = (kind m = SymType)"
definition islnk :: "tar_member \<Rightarrow> bool" where "islnk m = (kind m = LnkType)"

text \<open>
  \<open>tf.extractfile(m)\<close> gives a reader for a regular member and \<open>None\<close> for a directory or a
  special file; the program calls it on regular members only. In a stream (\<open>r|gz\<close>) the
  member list has been read to the end before any content is asked for, so reading a
  non-empty member would seek backwards and raises \<open>StreamError\<close>.
\<close>

definition extractfile :: "tarfile \<Rightarrow> tar_member \<Rightarrow> tar_member option" where
  "extractfile tf m = (if kind m = RegType then Some m else None)"

definition read_member :: "tarfile \<Rightarrow> tar_member \<Rightarrow> exn + string" where
  "read_member tf m =
     (if streamed tf \<and> content m \<noteq> [] then Inl (StreamError ''seeking backwards is not allowed'')
      else Inr (content m))"

text \<open>
  A \<open>zipfile.ZipFile\<close> is its entry list; \<open>namelist()\<close> gives the names in order, and
  \<open>open(name)\<close> and \<open>getinfo(name)\<close> find the last entry of that name.
\<close>

record zip_member =
  filename :: string
  external_attr :: int
  data :: string

type_synonym zipfile = "zip_member list"

definition namelist :: "zipfile \<Rightarrow> string list" where
  "namelist zf = map filename zf"

definition getinfo :: "zipfile \<Rightarrow> string \<Rightarrow> zip_member option" where
  "getinfo zf n = List.find (\<lambda>m. filename m = n) (rev zf)"

subsection \<open>Archive Extractor: \<open>_extract_tar_to\<close>\<close>

text \<open>Lines 69-74: the prefix is taken from the first directory member.\<close>

definition tar_prefix :: "tar_member list \<Rightarrow> string option" where
  "tar_prefix ms =
     (case List.find isdir ms of
        None \<Rightarrow> None
      | Some m \<Rightarrow> Some (rstrip_slash (name m) @ ''/''))"

text \<open>Lines 77-79: a member outside the prefix, or equal to it, is passed over.\<close>

definition tar_rel :: "string \<Rightarrow> tar_member \<Rightarrow> string option" where
  "tar_rel pfx m =
     (if \<not> prefix pfx (name m) then None
      else (let rel = drop (length pfx) (name m) in if rel = [] then None else Some rel))"

text \<open>
  Lines 75-96, one member after the other. The path \<open>out\<close> is tested resolved
  (\<open>_is_within\<close>) and used as it stands. An error ends the loop and leaves the filesystem as
  it is at that moment.
\<close>

fun tar_loop :: "tarfile \<Rightarrow> path \<Rightarrow> string \<Rightarrow> tar_member list \<Rightarrow> fs \<Rightarrow> exn option \<times> fs" where
  "tar_loop tf dst pfx [] fs = (None, fs)"
| "tar_loop tf dst pfx (m # ms) fs =
     (case tar_rel pfx m of
        None \<Rightarrow> tar_loop tf dst pfx ms fs
      | Some rel \<Rightarrow>
          (let out = join_path dst rel in
           if \<not> is_within dst out then tar_loop tf dst pfx ms fs
           else if issym m \<or> islnk m then tar_loop tf dst pfx ms fs
           else if isdir m then
             (case mkdir_parents fs out of
                (Some e, fs1) \<Rightarrow> (Some e, fs1)
              | (None, fs1) \<Rightarrow> tar_loop tf dst pfx ms fs1)
           else if isfile m then
             (case mkdir_parents fs (parent out) of
                (Some e, fs1) \<Rightarrow> (Some e, fs1)
              | (None, fs1) \<Rightarrow>
                  (case extractfile tf m of
                     None \<Rightarrow> tar_loop tf dst pfx ms fs1
                   | Some src \<Rightarrow>
                       (case open_wb fs1 out of
                          Inl e \<Rightarrow> (Some e, fs1)
                        | Inr (t, fs2) \<Rightarrow>
                            (case read_member tf src of
                               Inl e \<Rightarrow> (Some e, fs2)
                             | Inr bytes \<Rightarrow>
                                 tar_loop tf dst pfx ms
                                   (chmod (write_data fs2 t bytes) t (mode m AND 511))))))
           else tar_loop tf dst pfx ms fs))"

definition extract_tar_to :: "tarfile \<Rightarrow> path \<Rightarrow> fs \<Rightarrow> exn option \<times> fs" where
  "extract_tar_to tf dst fs =
     (case tar_prefix (members tf) of
        None \<Rightarrow> (Some (RuntimeError msg_tar_malformed), fs)
      | Some pfx \<Rightarrow> tar_loop tf dst pfx (members tf) fs)"

subsection \<open>Archive Extractor: \<open>_extract_zip_to\<close>\<close>

text \<open>
  Lines 99-100: the sorted set of the first segments (with their slash) of the names that
  contain a slash; the prefix is its first element, or empty.
\<close>

definition zip_roots :: "string list \<Rightarrow> string list" where
  "zip_roots names =
     sort (remdups (map (\<lambda>n. takeWhile (\<lambda>c. c \<noteq> CHR ''/'') n @ ''/'')
                        (filter (\<lambda>n. CHR ''/'' \<in> set n) names)))"

definition zip_prefix :: "string list \<Rightarrow> string" where
  "zip_prefix names = (case zip_roots names of [] \<Rightarrow> [] | r # _ \<Rightarrow> r)"

text \<open>Lines 102-106.\<close>

definition zip_rel :: "string \<Rightarrow> string \<Rightarrow> string option" where
  "zip_rel pfx n =
     (if pfx \<noteq> [] \<and> \<not> prefix pfx n then None
      else (let rel = drop (length pfx) n in if rel = [] then None else Some rel))"

text \<open>
  Lines 101-124. Here \<open>out\<close> is resolved before it is tested and used. No entry type is
  looked at: a name ending in a slash is a directory, anything else is written as a file.
  The permission bits are the nine low bits of the upper half of \<open>external_attr\<close>.
\<close>

fun zip_loop :: "zipfile \<Rightarrow> path \<Rightarrow> string \<Rightarrow> string list \<Rightarrow> fs \<Rightarrow> exn option \<times> fs" where
  "zip_loop zf dst pfx [] fs = (None, fs)"
| "zip_loop zf dst pfx (n # ns) fs =
     (case zip_rel pfx n of
        None \<Rightarrow> zip_loop zf dst pfx ns fs
      | Some rel \<Rightarrow>
          (let out = resolve (join_path dst rel) in
           if \<not> is_within dst out then zip_loop zf dst pfx ns fs
           else if suffix ''/'' n then
             (case mkdir_parents fs out of
                (Some e, fs1) \<Rightarrow> (Some e, fs1)
              | (None, fs1) \<Rightarrow> zip_loop zf dst pfx ns fs1)
           else
             (case mkdir_parents fs (parent out) of
                (Some e, fs1) \<Rightarrow> (Some e, fs1)
              | (None, fs1) \<Rightarrow>
                  (case getinfo zf n of
                     None \<Rightarrow> (Some (KeyError n), fs1)
                   | Some info \<Rightarrow>
                       (case open_wb fs1 out of
                          Inl e \<Rightarrow> (Some e, fs1)
                        | Inr (t, fs2) \<Rightarrow>
                            (let fs3 = write_data fs2 t (data info);
                                 perm = drop_bit 16 (external_attr info) AND 511
                             in zip_loop zf dst pfx ns
                                  (if perm \<noteq> 0 then chmod fs3 t perm else fs3)))))))"

definition extract_zip_to :: "zipfile \<Rightarrow> path \<Rightarrow> fs \<Rightarrow> exn option \<times> fs" where
  "extract_zip_to zf dst fs = zip_loop zf dst (zip_prefix (namelist zf)) (namelist zf) fs"

subsection \<open>The network\<close>

text \<open>
  A request is its URL and the two optional headers of \<open>_http\<close> (lines 12-16). The bytes of
  a response are known through what the program does with them: the emptiness test, the
  lenient UTF-8 decoding, \<open>json.loads\<close>, \<open>tarfile.open\<close> with \<open>getmembers\<close>, and
  \<open>zipfile.ZipFile\<close>; the last three may raise. A JSON value is taken to be an object
  whose fields are strings or null, which is what the two API endpoints answer.
\<close>

record request =
  req_url :: string
  req_accept :: "string option"
  req_authorization :: "string option"

type_synonym json_object = "(string \<times> string option) list"

record payload =
  no_bytes :: bool
  as_text :: string
  as_json :: "exn + json_object"
  as_tar :: "exn + tar_member list"
  as_zip :: "exn + zipfile"

text \<open>
  The transport answers the n-th request of the run, so that the same URL may fail once
  and succeed later. The world is the filesystem, the requests made so far and what was
  printed on standard error (the progress lines on standard output are left out).
\<close>

type_synonym transport = "nat \<Rightarrow> request \<Rightarrow> exn + payload"

datatype console = Printed string | Traceback exn

record world =
  files :: fs
  requests :: "request list"
  stderr :: "console list"

definition http :: "transport \<Rightarrow> string \<Rightarrow> string option \<Rightarrow> string option \<Rightarrow> world
    \<Rightarrow> (exn + payload) \<times> world" where
  "http net u acc tok w =
     (let req = \<lparr>req_url = u,
                 req_accept = (case acc of Some a \<Rightarrow> (if a \<noteq> [] then Some a else None) | None \<Rightarrow> None),
                 req_authorization =
                   (case tok of Some t \<Rightarrow> (if t \<noteq> [] then Some (''Bearer '' @ t) else None)
                    | None \<Rightarrow> None)\<rparr>
      in (net (length (requests w)) req, w\<lparr>requests := requests w @ [req]\<rparr>))"

text \<open>\<open>_json\<close> (lines 18-20) and \<open>_read\<close> (lines 22-24).\<close>

definition json_get :: "transport \<Rightarrow> string \<Rightarrow> string option \<Rightarrow> world
    \<Rightarrow> (exn + json_object) \<times> world" where
  "json_get net u tok w =
     (case http net u (Some ''application/vnd.github+json'') tok w of
        (Inl e, w1) \<Rightarrow> (Inl e, w1)
      | (Inr resp, w1) \<Rightarrow> (as_json resp, w1))"

definition read_url :: "transport \<Rightarrow> string \<Rightarrow> world \<Rightarrow> (exn + payload) \<times> world" where
  "read_url net u w = http net u None None w"

text \<open>\<open>str(e)\<close>, as the interpreter words the filesystem errors.\<close>

fun str_exn :: "exn \<Rightarrow> string" where
  "str_exn (RuntimeError s) = s"
| "str_exn (ValueError s) = s"
| "str_exn (KeyError s) = [CHR 0x27] @ s @ [CHR 0x27]"
| "str_exn (TypeError s) = s"
| "str_exn (UnicodeEncodeError s) = s"
| "str_exn (URLError s) = s"
| "str_exn (ReadError s) = s"
| "str_exn (StreamError s) = s"
| "str_exn (BadZipFile s) = s"
| "str_exn (FileNotFoundError p) =
     ''[Errno 2] No such file or directory: '' @ [CHR 0x27] @ str_path p @ [CHR 0x27]"
| "str_exn (FileExistsError p) =
     ''[Errno 17] File exists: '' @ [CHR 0x27] @ str_path p @ [CHR 0x27]"
| "str_exn (NotADirectoryError p) =
     ''[Errno 20] Not a directory: '' @ [CHR 0x27] @ str_path p @ [CHR 0x27]"
| "str_exn (IsADirectoryError p) =
     ''[Errno 21] Is a directory: '' @ [CHR 0x27] @ str_path p @ [CHR 0x27]"

subsection \<open>Reference Resolver: \<open>_guess_default_sha_html\<close>\<close>

text \<open>
  \<open>re.search\<close> tries the pattern at every position from the left. Letters are compared
  without case (\<open>re.I\<close>), here on ASCII.
\<close>

fun search :: "(string \<Rightarrow> 'a option) \<Rightarrow> string \<Rightarrow> 'a option" where
  "search f [] = f []"
| "search f (x # xs) = (case f (x # xs) of Some r \<Rightarrow> Some r | None \<Rightarrow> search f xs)"

definition is_hex :: "char \<Rightarrow> bool" where
  "is_hex c = (is_digit c \<or> (CHR ''a'' \<le> lower_char c \<and> lower_char c \<le> CHR ''f''))"

definition starts_ci :: "string \<Rightarrow> string \<Rightarrow> bool" where
  "starts_ci lit s = (lower (take (length lit) s) = lower lit)"

text \<open>
  Line 42: the literal \<open>href="/owner/repo/commit/\<close>, forty hexadecimal digits (the group),
  a double quote.
\<close>

definition match_commit_href :: "string \<Rightarrow> string \<Rightarrow> string \<Rightarrow> string option" where
  "match_commit_href owner repo s =
     (let lit = ''href='' @ [CHR 0x22] @ ''/'' @ owner @ ''/'' @ repo @ ''/commit/'';
          r = drop (length lit) s;
          h = take 40 r
      in if starts_ci lit s \<and> length h = 40 \<and> list_all is_hex h \<and> take 1 (drop 40 r) = [CHR 0x22]
         then Some h else None)"

text \<open>
  Line 49: the marker, then as few characters as possible (\<open>.*?\<close>, newlines included),
  then \<open>>\<close>, seven to forty hexadecimal digits (the group) and \<open><\<close>. The digits are
  followed by \<open><\<close>, so the group is the whole run of digits after \<open>>\<close>.
\<close>

definition match_tease_tail :: "string \<Rightarrow> string option" where
  "match_tease_tail s =
     (case s of
        [] \<Rightarrow> None
      | c # rest \<Rightarrow>
          (let h = takeWhile is_hex rest
           in if c = CHR ''>'' \<and> 7 \<le> length h \<and> length h \<le> 40
                 \<and> take 1 (drop (length h) rest) = ''<''
              then Some h else None))"

definition match_commit_tease :: "string \<Rightarrow> string option" where
  "match_commit_tease s =
     (let lit = ''data-test-selector='' @ [CHR 0x22] @ ''commit-tease-sha'' @ [CHR 0x22]
      in if starts_ci lit s then search match_tease_tail (drop (length lit) s) else None)"

text \<open>The inner function \<open>scrape\<close> (lines 36-38).\<close>

definition scrape :: "transport \<Rightarrow> string \<Rightarrow> string \<Rightarrow> string \<Rightarrow> world \<Rightarrow> (exn + string) \<times> world" where
  "scrape net owner repo p w =
     (case read_url net (''https://github.com/'' @ owner @ ''/'' @ repo @ ''/'' @ p) w of
        (Inl e, w1) \<Rightarrow> (Inl e, w1)
      | (Inr resp, w1) \<Rightarrow> (Inr (as_text resp), w1))"

definition candidates :: "string option \<Rightarrow> string list" where
  "candidates branch_hint =
     (case branch_hint of None \<Rightarrow> [] | Some h \<Rightarrow> (if h \<noteq> [] then [h] else []))
     @ [''main'', ''master'']"

text \<open>
  The two loops (lines 39-45 and 46-52). A page that cannot be fetched and a page without
  a match both pass to the next branch.
\<close>

fun commits_loop :: "transport \<Rightarrow> string \<Rightarrow> string \<Rightarrow> string list \<Rightarrow> world
    \<Rightarrow> (string \<times> string) option \<times> world" where
  "commits_loop net owner repo [] w = (None, w)"
| "commits_loop net owner repo (b # bs) w =
     (case scrape net owner repo (''commits/'' @ b) w of
        (Inl e, w1) \<Rightarrow> commits_loop net owner repo bs w1
      | (Inr html, w1) \<Rightarrow>
          (case search (match_commit_href owner repo) html of
             Some sha \<Rightarrow> (Some (b, sha), w1)
           | None \<Rightarrow> commits_loop net owner repo bs w1))"

fun tree_loop :: "transport \<Rightarrow> string \<Rightarrow> string \<Rightarrow> string list \<Rightarrow> world
    \<Rightarrow> (string \<times> string) option \<times> world" where
  "tree_loop net owner repo [] w = (None, w)"
| "tree_loop net owner repo (b # bs) w =
     (case scrape net owner repo (''tree/'' @ b) w of
        (Inl e, w1) \<Rightarrow> tree_loop net owner repo bs w1
      | (Inr html, w1) \<Rightarrow>
          (case search match_commit_tease html of
             Some sha \<Rightarrow> (Some (b, sha), w1)
           | None \<Rightarrow> tree_loop net owner repo bs w1))"

definition guess_default_sha_html :: "transport \<Rightarrow> string \<Rightarrow> string \<Rightarrow> string option \<Rightarrow> world
    \<Rightarrow> (exn + (string \<times> string)) \<times> world" where
  "guess_default_sha_html net owner repo branch_hint w =
     (case commits_loop net owner repo (candidates branch_hint) w of
        (Some r, w1) \<Rightarrow> (Inr r, w1)
      | (None, w1) \<Rightarrow>
          (case tree_loop net owner repo (candidates branch_hint) w1 of
             (Some r, w2) \<Rightarrow> (Inr r, w2)
           | (None, w2) \<Rightarrow> (Inl (RuntimeError msg_html_failed), w2)))"

subsection \<open>Snapshot Acquisition Cascade: \<open>_download_snapshot\<close>\<close>

text \<open>\<open>_download_tar_stream\<close> (lines 63-66): the archive is read from the live response.\<close>

definition download_tar_stream :: "transport \<Rightarrow> string \<Rightarrow> path \<Rightarrow> world \<Rightarrow> exn option \<times> world" where
  "download_tar_stream net u dst w =
     (case http net u None None w of
        (Inl e, w1) \<Rightarrow> (Some e, w1)
      | (Inr resp, w1) \<Rightarrow>
          (case as_tar resp of
             Inl e \<Rightarrow> (Some e, w1)
           | Inr ms \<Rightarrow>
               (case extract_tar_to \<lparr>streamed = True, members = ms\<rparr> dst (files w1) of
                  (r, fs') \<Rightarrow> (r, w1\<lparr>files := fs'\<rparr>))))"

text \<open>The inner function \<open>fetch_bytes\<close> (lines 138-141).\<close>

definition fetch_bytes :: "transport \<Rightarrow> string \<Rightarrow> world \<Rightarrow> (exn + payload) \<times> world" where
  "fetch_bytes net u w =
     (case read_url net u w of
        (Inl e, w1) \<Rightarrow> (Inl e, w1)
      | (Inr d, w1) \<Rightarrow>
          (if no_bytes d then (Inl (RuntimeError msg_empty_response), w1) else (Inr d, w1)))"

text \<open>The bodies of the buffered \<open>try\<close> blocks (lines 143-145 and 153-155).\<close>

definition download_tar_buffered :: "transport \<Rightarrow> string \<Rightarrow> path \<Rightarrow> world \<Rightarrow> exn option \<times> world" where
  "download_tar_buffered net u dst w =
     (case fetch_bytes net u w of
        (Inl e, w1) \<Rightarrow> (Some e, w1)
      | (Inr d, w1) \<Rightarrow>
          (case as_tar d of
             Inl e \<Rightarrow> (Some e, w1)
           | Inr ms \<Rightarrow>
               (case extract_tar_to \<lparr>streamed = False, members = ms\<rparr> dst (files w1) of
                  (r, fs') \<Rightarrow> (r, w1\<lparr>files := fs'\<rparr>))))"

definition download_zip_buffered :: "transport \<Rightarrow> string \<Rightarrow> path \<Rightarrow> world \<Rightarrow> exn option \<times> world" where
  "download_zip_buffered net u dst w =
     (case fetch_bytes net u w of
        (Inl e, w1) \<Rightarrow> (Some e, w1)
      | (Inr d, w1) \<Rightarrow>
          (case as_zip d of
             Inl e \<Rightarrow> (Some e, w1)
           | Inr zf \<Rightarrow>
               (case extract_zip_to zf dst (files w1) of
                  (r, fs') \<Rightarrow> (r, w1\<lparr>files := fs'\<rparr>))))"

definition codeload :: "string \<Rightarrow> string \<Rightarrow> string \<Rightarrow> string \<Rightarrow> string" where
  "codeload owner repo fmt ref =
     ''https://codeload.github.com/'' @ owner @ ''/'' @ repo @ ''/'' @ fmt @ ''/'' @ ref"

text \<open>
  \<open>_download_snapshot\<close> (lines 126-162): six \<open>try\<close> blocks one after the other, each
  returning on success and appending its label and error to \<open>errs\<close> otherwise.
\<close>

definition download_snapshot :: "transport \<Rightarrow> path \<Rightarrow> string \<Rightarrow> string \<Rightarrow> string \<Rightarrow> string
    \<Rightarrow> world \<Rightarrow> exn option \<times> world" where
  "download_snapshot net dst owner repo ref_sha branch_name w =
     (case download_tar_stream net (codeload owner repo ''tar.gz'' ref_sha) dst w of
        (None, w1) \<Rightarrow> (None, w1)
      | (Some e1, w1) \<Rightarrow>
     (case download_tar_stream net (codeload owner repo ''tar.gz'' branch_name) dst w1 of
        (None, w2) \<Rightarrow> (None, w2)
      | (Some e2, w2) \<Rightarrow>
     (case download_tar_buffered net (codeload owner repo ''tar.gz'' ref_sha) dst w2 of
        (None, w3) \<Rightarrow> (None, w3)
      | (Some e3, w3) \<Rightarrow>
     (case download_tar_buffered net (codeload owner repo ''tar.gz'' branch_name) dst w3 of
        (None, w4) \<Rightarrow> (None, w4)
      | (Some e4, w4) \<Rightarrow>
     (case download_zip_buffered net (codeload owner repo ''zip'' ref_sha) dst w4 of
        (None, w5) \<Rightarrow> (None, w5)
      | (Some e5, w5) \<Rightarrow>
     (case download_zip_buffered net (codeload owner repo ''zip'' branch_name) dst w5 of
        (None, w6) \<Rightarrow> (None, w6)
      | (Some e6, w6) \<Rightarrow>
          (Some (RuntimeError (msg_snapshot_failed @ join ''; ''
             [''tar.gz(stream)@sha: '' @ str_exn e1,
              ''tar.gz(stream)@branch: '' @ str_exn e2,
              ''tar.gz@sha: '' @ str_exn e3,
              ''tar.gz@branch: '' @ str_exn e4,
              ''zip@sha: '' @ str_exn e5,
              ''zip@branch: '' @ str_exn e6])), w6)))))))"

text \<open>
  The six tiers as data, for stating properties of the cascade: what a tier fetches, how
  it runs, and the label its failure is recorded under.
\<close>

datatype tier = TarStreamSha | TarStreamBranch | TarSha | TarBranch | ZipSha | ZipBranch

definition tiers :: "tier list" where
  "tiers = [TarStreamSha, TarStreamBranch, TarSha, TarBranch, ZipSha, ZipBranch]"

fun tier_url :: "string \<Rightarrow> string \<Rightarrow> string \<Rightarrow> string \<Rightarrow> tier \<Rightarrow> string" where
  "tier_url owner repo ref_sha branch_name TarStreamSha = codeload owner repo ''tar.gz'' ref_sha"
| "tier_url owner repo ref_sha branch_name TarStreamBranch = codeload owner repo ''tar.gz'' branch_name"
| "tier_url owner repo ref_sha branch_name TarSha = codeload owner repo ''tar.gz'' ref_sha"
| "tier_url owner repo ref_sha branch_name TarBranch = codeload owner repo ''tar.gz'' branch_name"
| "tier_url owner repo ref_sha branch_name ZipSha = codeload owner repo ''zip'' ref_sha"
| "tier_url owner repo ref_sha branch_name ZipBranch = codeload owner repo ''zip'' branch_name"

fun tier_label :: "tier \<Rightarrow> string" where
  "tier_label TarStreamSha = ''tar.gz(stream)@sha''"
| "tier_label TarStreamBranch = ''tar.gz(stream)@branch''"
| "tier_label TarSha = ''tar.gz@sha''"
| "tier_label TarBranch = ''tar.gz@branch''"
| "tier_label ZipSha = ''zip@sha''"
| "tier_label ZipBranch = ''zip@branch''"

fun run_tier :: "transport \<Rightarrow> path \<Rightarrow> string \<Rightarrow> string \<Rightarrow> string \<Rightarrow> string \<Rightarrow> tier
    \<Rightarrow> world \<Rightarrow> exn option \<times> world" where
  "run_tier net dst owner repo ref_sha branch_name TarStreamSha w =
     download_tar_stream net (codeload owner repo ''tar.gz'' ref_sha) dst w"
| "run_tier net dst owner repo ref_sha branch_name TarStreamBranch w =
     download_tar_stream net (codeload owner repo ''tar.gz'' branch_name) dst w"
| "run_tier net dst owner repo ref_sha branch_name TarSha w =
     download_tar_buffered net (codeload owner repo ''tar.gz'' ref_sha) dst w"
| "run_tier net dst owner repo ref_sha branch_name TarBranch w =
     download_tar_buffered net (codeload owner repo ''tar.gz'' branch_name) dst w"
| "run_tier net dst owner repo ref_sha branch_name ZipSha w =
     download_zip_buffered net (codeload owner repo ''zip'' ref_sha) dst w"
| "run_tier net dst owner repo ref_sha branch_name ZipBranch w =
     download_zip_buffered net (codeload owner repo ''zip'' branch_name) dst w"

text \<open>
  The run of a list of tiers from a world: the outcome of each tier attempted, in order,
  with the world it left, stopping after the first success.
\<close>

fun attempts :: "transport \<Rightarrow> path \<Rightarrow> string \<Rightarrow> string \<Rightarrow> string \<Rightarrow> string \<Rightarrow> tier list
    \<Rightarrow> world \<Rightarrow> (tier \<times> exn option \<times> world) list" where
  "attempts net dst owner repo ref_sha branch_name [] w = []"
| "attempts net dst owner repo ref_sha branch_name (t # ts) w =
     (case run_tier net dst owner repo ref_sha branch_name t w of
        (None, w1) \<Rightarrow> [(t, None, w1)]
      | (Some e, w1) \<Rightarrow> (t, Some e, w1) # attempts net dst owner repo ref_sha branch_name ts w1)"

subsection \<open>Git Skeleton Synthesizer: \<open>_write_git_skeleton\<close>\<close>

definition nl :: string where "nl = [CHR 0x0A]"

text \<open>
  \<open>write_text(..., encoding="ascii")\<close> opens the file and then encodes: a character outside
  ASCII raises \<open>UnicodeEncodeError\<close> and leaves the file empty.
\<close>

definition write_text_ascii :: "fs \<Rightarrow> path \<Rightarrow> string \<Rightarrow> exn option \<times> fs" where
  "write_text_ascii fs p s =
     (case open_wb fs p of
        Inl e \<Rightarrow> (Some e, fs)
      | Inr (t, fs') \<Rightarrow>
          (if list_all (\<lambda>c. of_char c < (128::nat)) s then (None, write_data fs' t s)
           else (Some (UnicodeEncodeError ''ordinal not in range(128)''), fs')))"

text \<open>A sequence of statements, stopped by the first that raises.\<close>

fun run_all :: "(fs \<Rightarrow> exn option \<times> fs) list \<Rightarrow> fs \<Rightarrow> exn option \<times> fs" where
  "run_all [] fs = (None, fs)"
| "run_all (a # as) fs = (case a fs of (Some e, fs1) \<Rightarrow> (Some e, fs1) | (None, fs1) \<Rightarrow> run_all as fs1)"

text \<open>Lines 174-195: the configuration text, after \<open>lstrip()\<close> has removed its first newline.\<close>

definition git_config :: "string \<Rightarrow> string \<Rightarrow> string" where
  "git_config remote_url default_branch =
     concat (map (\<lambda>l. l @ nl)
       [''[core]'',
        CHR 0x09 # ''repositoryformatversion = 0'',
        CHR 0x09 # ''filemode = true'',
        CHR 0x09 # ''bare = false'',
        CHR 0x09 # ''logallrefupdates = true'',
        ''[remote '' @ [CHR 0x22] @ ''origin'' @ [CHR 0x22] @ '']'',
        CHR 0x09 # ''url = '' @ remote_url,
        CHR 0x09 # ''fetch = +refs/heads/*:refs/remotes/origin/*'',
        CHR 0x09 # ''promisor = true'',
        CHR 0x09 # ''partialclonefilter = blob:none'',
        ''[remote '' @ [CHR 0x22] @ ''upstream'' @ [CHR 0x22] @ '']'',
        CHR 0x09 # ''url = '' @ remote_url,
        CHR 0x09 # ''fetch = +refs/heads/*:refs/remotes/upstream/*'',
        CHR 0x09 # ''promisor = true'',
        CHR 0x09 # ''partialclonefilter = blob:none'',
        ''[branch '' @ [CHR 0x22] @ default_branch @ [CHR 0x22] @ '']'',
        CHR 0x09 # ''remote = origin'',
        CHR 0x09 # ''merge = refs/heads/'' @ default_branch,
        ''[extensions]'',
        CHR 0x09 # ''partialClone = origin''])"

text \<open>\<open>_write_git_skeleton\<close> (lines 164-197), statement by statement.\<close>

definition write_git_skeleton :: "path \<Rightarrow> string \<Rightarrow> string \<Rightarrow> string \<Rightarrow> fs \<Rightarrow> exn option \<times> fs" where
  "write_git_skeleton dst remote_url default_branch head_sha fs =
     (let git = join_path dst ''.git'' in
      run_all
        [\<lambda>fs. mkdir_parents fs (join_path git ''refs/heads''),
         \<lambda>fs. mkdir_parents fs (join_path git ''refs/remotes/origin''),
         \<lambda>fs. mkdir_parents fs (join_path git ''refs/remotes/upstream''),
         \<lambda>fs. mkdir_parents fs (join_path git ''objects/info''),
         \<lambda>fs. write_text fs (join_path git ''HEAD'') (''ref: refs/heads/'' @ default_branch @ nl),
         \<lambda>fs. write_text_ascii fs (join_path (join_path git ''refs/heads'') default_branch)
                 (head_sha @ nl),
         \<lambda>fs. write_text_ascii fs (join_path (join_path git ''refs/remotes/origin'') default_branch)
                 (head_sha @ nl),
         \<lambda>fs. write_text_ascii fs (join_path (join_path git ''refs/remotes/upstream'') default_branch)
                 (head_sha @ nl),
         \<lambda>fs. write_text fs (join_path git ''config'') (git_config remote_url default_branch),
         \<lambda>fs. write_text fs (join_path git ''objects/info/promisor'') (''promisor'' @ nl)]
        fs)"

text \<open>The content of the file a path names, if it names a regular file.\<close>

definition read_file :: "fs \<Rightarrow> path \<Rightarrow> string option" where
  "read_file fs p =
     (case target fs p of
        Inl _ \<Rightarrow> None
      | Inr t \<Rightarrow> (case fs t of Some (File d _) \<Rightarrow> Some d | _ \<Rightarrow> None))"

subsection \<open>\<open>bootstrap\<close> and \<open>main\<close>\<close>

text \<open>
  The body of the \<open>try\<close> of \<open>bootstrap\<close> (lines 207-210): the default branch of the
  repository, \<open>master\<close> when it is missing or empty, and the id of its tip commit.
\<close>

definition api_resolve :: "transport \<Rightarrow> string option \<Rightarrow> string \<Rightarrow> string \<Rightarrow> world
    \<Rightarrow> (exn + (string \<times> string)) \<times> world" where
  "api_resolve net tok owner repo w =
     (case json_get net (''https://api.github.com/repos/'' @ owner @ ''/'' @ repo) tok w of
        (Inl e, w1) \<Rightarrow> (Inl e, w1)
      | (Inr meta, w1) \<Rightarrow>
          (let default_branch =
                 (case map_of meta ''default_branch'' of
                    Some (Some b) \<Rightarrow> (if b \<noteq> [] then b else ''master'')
                  | _ \<Rightarrow> ''master'')
           in case json_get net (''https://api.github.com/repos/'' @ owner @ ''/'' @ repo
                                  @ ''/commits/'' @ default_branch) tok w1 of
                (Inl e, w2) \<Rightarrow> (Inl e, w2)
              | (Inr tip, w2) \<Rightarrow>
                  (case map_of tip ''sha'' of
                     None \<Rightarrow> (Inl (KeyError ''sha''), w2)
                   | Some None \<Rightarrow> (Inl (TypeError ''not subscriptable''), w2)
                   | Some (Some sha) \<Rightarrow> (Inr (default_branch, sha), w2))))"

text \<open>
  The \<open>try\<close> statement of \<open>bootstrap\<close> (lines 206-216): any exception of the API path
  leads to the HTML path, which is called without a branch hint.
\<close>

definition resolve_ref :: "transport \<Rightarrow> string option \<Rightarrow> string \<Rightarrow> string \<Rightarrow> world
    \<Rightarrow> (exn + (string \<times> string)) \<times> world" where
  "resolve_ref net tok owner repo w =
     (case api_resolve net tok owner repo w of
        (Inr r, w1) \<Rightarrow> (Inr r, w1)
      | (Inl e, w1) \<Rightarrow> guess_default_sha_html net owner repo None w1)"

text \<open>\<open>bootstrap\<close> (lines 199-224): locate, resolve, acquire, synthesize.\<close>

definition bootstrap :: "transport \<Rightarrow> string option \<Rightarrow> string \<Rightarrow> path \<Rightarrow> world
    \<Rightarrow> raised option \<times> world" where
  "bootstrap net tok repo_url dst w =
     (case owner_repo repo_url of
        Inl r \<Rightarrow> (Some r, w)
      | Inr (owner, repo) \<Rightarrow>
          (case resolve_ref net tok owner repo w of
             (Inl e, w2) \<Rightarrow> (Some (Exception e), w2)
           | (Inr (default_branch, head_sha), w2) \<Rightarrow>
               (case download_snapshot net dst owner repo head_sha default_branch w2 of
                  (Some e, w3) \<Rightarrow> (Some (Exception e), w3)
                | (None, w3) \<Rightarrow>
                    (case write_git_skeleton dst repo_url default_branch head_sha (files w3) of
                       (Some e, fs') \<Rightarrow> (Some (Exception e), w3\<lparr>files := fs'\<rparr>)
                     | (None, fs') \<Rightarrow> (None, w3\<lparr>files := fs'\<rparr>)))))"

text \<open>
  The effect of the two clearing loops of \<open>main\<close> (lines 235-240): files are unlinked,
  then directories removed, children before parents; nothing below the destination stays.
\<close>

definition clear_tree :: "fs \<Rightarrow> path \<Rightarrow> fs" where
  "clear_tree fs dst =
     (case target fs dst of
        Inl _ \<Rightarrow> fs
      | Inr t \<Rightarrow> (\<lambda>p. if strict_prefix t p then None else fs p))"

text \<open>
  \<open>main\<close> (lines 226-245), from the parsed arguments to the exit status. \<open>sys.exit(n)\<close>
  ends the process with status n; a \<open>SystemExit\<close> carrying a message prints it and ends
  with status 1, and so does an exception nobody catches, after its traceback. With the
  overwrite flag an existing destination is cleared first (\<open>cleared\<close>).
\<close>

definition cleared :: "world \<Rightarrow> path \<Rightarrow> world" where
  "cleared w dst =
     (if exists_path (files w) dst then w\<lparr>files := clear_tree (files w) dst\<rparr> else w)"

definition main :: "transport \<Rightarrow> string option \<Rightarrow> string \<Rightarrow> path \<Rightarrow> bool \<Rightarrow> world \<Rightarrow> nat \<times> world" where
  "main net tok repo_url dst force w =
     (if exists_path (files w) dst \<and> \<not> force
      then (1, w\<lparr>stderr := stderr w @ [Printed (msg_dir_exists @ str_path dst)]\<rparr>)
      else
        (case mkdir_parents (files (cleared w dst)) dst of
           (Some e, fs1) \<Rightarrow>
             (1, (cleared w dst)\<lparr>files := fs1, stderr := stderr w @ [Traceback e]\<rparr>)
         | (None, fs1) \<Rightarrow>
             (case bootstrap net tok repo_url dst ((cleared w dst)\<lparr>files := fs1\<rparr>) of
                (None, w1) \<Rightarrow> (0, w1)
              | (Some (Exception e), w1) \<Rightarrow>
                  (2, w1\<lparr>stderr := stderr w1 @ [Printed (msg_exception @ '' '' @ str_exn e)]\<rparr>)
              | (Some (SystemExit m), w1) \<Rightarrow>
                  (1, w1\<lparr>stderr := stderr w1 @ [Printed m]\<rparr>))))"

subsection \<open>Vocabulary for the cascade\<close>

text \<open>
  The world a list of tiers leaves when each is run in turn, whatever its outcome; the
  outcome of the i-th tier of the cascade, run in the world the tiers before it have left;
  and the request a tier sends.
\<close>

definition world_after :: "transport \<Rightarrow> path \<Rightarrow> string \<Rightarrow> string \<Rightarrow> string \<Rightarrow> string \<Rightarrow> tier list
    \<Rightarrow> world \<Rightarrow> world" where
  "world_after net dst owner repo ref_sha branch_name ts w =
     foldl (\<lambda>w t. snd (run_tier net dst owner repo ref_sha branch_name t w)) w ts"

definition tier_outcome :: "transport \<Rightarrow> path \<Rightarrow> string \<Rightarrow> string \<Rightarrow> string \<Rightarrow> string \<Rightarrow> world
    \<Rightarrow> nat \<Rightarrow> exn option" where
  "tier_outcome net dst owner repo ref_sha branch_name w i =
     fst (run_tier net dst owner repo ref_sha branch_name (tiers ! i)
            (world_after net dst owner repo ref_sha branch_name (take i tiers) w))"

definition tier_request :: "string \<Rightarrow> string \<Rightarrow> string \<Rightarrow> string \<Rightarrow> tier \<Rightarrow> request" where
  "tier_request owner repo ref_sha branch_name t =
     \<lparr>req_url = tier_url owner repo ref_sha branch_name t, req_accept = None, req_authorization = None\<rparr>"

text \<open>What \<open>_download_snapshot\<close> returns, read off the list of attempts.\<close>

definition outcome_of :: "(tier \<times> exn option \<times> world) list \<Rightarrow> world \<Rightarrow> exn option \<times> world" where
  "outcome_of as w =
     (if as = [] then (None, w)
      else if list_all (\<lambda>(t, r, w). r \<noteq> None) as
      then (Some (RuntimeError (msg_snapshot_failed @ join ''; ''
              (map (\<lambda>(t, r, w). tier_label t @ '': '' @ (case r of Some e \<Rightarrow> str_exn e | None \<Rightarrow> [])) as))),
            snd (snd (last as)))
      else (None, snd (snd (last as))))"

subsection \<open>Concrete inputs\<close>

text \<open>
  A filesystem with the destination \<open>/w/dst\<close> as an empty directory, a world over it, a
  response that is a tar archive, a transport that is down, and one whose second answer
  is an archive holding only its top directory.
\<close>

definition fs0 :: fs where
  "fs0 = [[] \<mapsto> Dir, [''w''] \<mapsto> Dir, [''w'', ''dst''] \<mapsto> Dir]"

definition w0 :: world where
  "w0 = \<lparr>files = fs0, requests = [], stderr = []\<rparr>"

definition tar_payload :: "tar_member list \<Rightarrow> payload" where
  "tar_payload ms = \<lparr>no_bytes = False, as_text = [], as_json = Inl (ValueError ''not JSON''),
     as_tar = Inr ms, as_zip = Inl (BadZipFile ''File is not a zip file'')\<rparr>"

definition net_down :: transport where
  "net_down n req = Inl (URLError ''down'')"

definition net_second :: transport where
  "net_second n req =
     (if n = 1 then Inr (tar_payload [\<lparr>name = ''p'', kind = DirType, mode = 493, content = []\<rparr>])
      else Inl (URLError ''down''))"

subsection \<open>Vocabulary for the HTML resolver\<close>

text \<open>
  The pages the resolver reads, in the order it reads them: the commit-history page of
  every candidate branch, then the tree page of every candidate branch. \<open>try_page\<close> is one
  pass of the body of either loop; \<open>page_outcome\<close> is the match of the i-th page, read in
  the world the pages before it have left.
\<close>

datatype page_kind = CommitsPage | TreePage

definition html_pages :: "string option \<Rightarrow> (page_kind \<times> string) list" where
  "html_pages branch_hint =
     map (Pair CommitsPage) (candidates branch_hint) @ map (Pair TreePage) (candidates branch_hint)"

fun try_page :: "transport \<Rightarrow> string \<Rightarrow> string \<Rightarrow> page_kind \<times> string \<Rightarrow> world
    \<Rightarrow> string option \<times> world" where
  "try_page net owner repo (CommitsPage, b) w =
     (case scrape net owner repo (''commits/'' @ b) w of
        (Inl e, w1) \<Rightarrow> (None, w1)
      | (Inr html, w1) \<Rightarrow> (search (match_commit_href owner repo) html, w1))"
| "try_page net owner repo (TreePage, b) w =
     (case scrape net owner repo (''tree/'' @ b) w of
        (Inl e, w1) \<Rightarrow> (None, w1)
      | (Inr html, w1) \<Rightarrow> (search match_commit_tease html, w1))"

definition pages_after :: "transport \<Rightarrow> string \<Rightarrow> string \<Rightarrow> (page_kind \<times> string) list \<Rightarrow> world \<Rightarrow> world" where
  "pages_after net owner repo ps w = foldl (\<lambda>w p. snd (try_page net owner repo p w)) w ps"

definition page_outcome :: "transport \<Rightarrow> string \<Rightarrow> string \<Rightarrow> string option \<Rightarrow> world \<Rightarrow> nat
    \<Rightarrow> string option" where
  "page_outcome net owner repo branch_hint w i =
     fst (try_page net owner repo (html_pages branch_hint ! i)
            (pages_after net owner repo (take i (html_pages branch_hint)) w))"

text \<open>
  The two loops as one pass over a list of pages.
\<close>

fun first_match :: "transport \<Rightarrow> string \<Rightarrow> string \<Rightarrow> (page_kind \<times> string) list \<Rightarrow> world
    \<Rightarrow> (string \<times> string) option \<times> world" where
  "first_match net owner repo [] w = (None, w)"
| "first_match net owner repo (p # ps) w =
     (case try_page net owner repo p w of
        (Some sha, w1) \<Rightarrow> (Some (snd p, sha), w1)
      | (None, w1) \<Rightarrow> first_match net owner repo ps w1)"

text \<open>
  The request a page costs, and concrete pages: the commit-history page of \<open>main\<close> lists
  nothing, its tree page shows an abbreviated id, the commit-history page of \<open>master\<close>
  links a full id.
\<close>

definition page_request :: "string \<Rightarrow> string \<Rightarrow> page_kind \<times> string \<Rightarrow> request" where
  "page_request owner repo p =
     \<lparr>req_url = ''https://github.com/'' @ owner @ ''/'' @ repo @ ''/''
                 @ (case fst p of CommitsPage \<Rightarrow> ''commits/'' | TreePage \<Rightarrow> ''tree/'') @ snd p,
      req_accept = None, req_authorization = None\<rparr>"

definition html_payload :: "string \<Rightarrow> payload" where
  "html_payload t = \<lparr>no_bytes = False, as_text = t, as_json = Inl (ValueError ''not JSON''),
     as_tar = Inl (ReadError ''not a gzip file''), as_zip = Inl (BadZipFile ''File is not a zip file'')\<rparr>"

definition sha_b :: string where
  "sha_b = ''0123456789abcdef0123456789abcdef01234567''"

definition net_pages :: transport where
  "net_pages n req =
     (if req_url req = ''https://github.com/acme/widget/commits/main''
      then Inr (html_payload ''<html>no commits listed</html>'')
      else if req_url req = ''https://github.com/acme/widget/tree/main''
      then Inr (html_payload (''<a data-test-selector='' @ [CHR 0x22] @ ''commit-tease-sha''
                  @ [CHR 0x22] @ '' href=x>1234abc</a>''))
      else if req_url req = ''https://github.com/acme/widget/commits/master''
      then Inr (html_payload (''<a href='' @ [CHR 0x22] @ ''/acme/widget/commit/'' @ sha_b
                  @ [CHR 0x22] @ ''>tip</a>''))
      else Inl (URLError ''HTTP Error 404: Not Found''))"

subsection \<open>Concrete archives\<close>

text \<open>
  A response that is a zip archive; a zip archive whose two entries lie under different
  top-level directories; a tar archive without a directory member; and a small tar
  archive as the archive service sends it, its top directory first.
\<close>

definition zip_payload :: "zipfile \<Rightarrow> payload" where
  "zip_payload zf = \<lparr>no_bytes = False, as_text = [], as_json = Inl (ValueError ''not JSON''),
     as_tar = Inl (ReadError ''not a gzip file''), as_zip = Inr zf\<rparr>"

definition zip_two_roots :: zipfile where
  "zip_two_roots =
     [\<lparr>filename = ''a/x'', external_attr = 0, data = ''one''\<rparr>,
      \<lparr>filename = ''b/y'', external_attr = 0, data = ''two''\<rparr>]"


definition tar_small :: "tar_member list" where
  "tar_small =
     [\<lparr>name = ''widget-main'', kind = DirType, mode = 493, content = []\<rparr>,
      \<lparr>name = ''widget-main/a.txt'', kind = RegType, mode = 420, content = ''abc''\<rparr>]"

subsection \<open>Archives with links and with dotted paths\<close>

text \<open>
  A zip entry made on a Unix system keeps its file mode in the upper half of
  \<open>external_attr\<close>; the entry is a symbolic link when the file-type bits of that mode are
  those of a link (\<open>stat.S_ISLNK\<close>), and its data is then the link target. The extractor
  never looks at these bits.
\<close>

definition zip_is_symlink :: "zip_member \<Rightarrow> bool" where
  "zip_is_symlink m = (drop_bit 16 (external_attr m) AND 61440 = 40960)"

text \<open>
  A zip archive with a symbolic-link entry; a tar archive with a symbolic link and a hard
  link; and a tar and a zip archive with a directory entry whose name leaves the
  destination \<open>/w/dst\<close> through \<open>..\<close> and comes back into it.
\<close>

definition zip_link :: zipfile where
  "zip_link =
     [\<lparr>filename = ''widget-main/'', external_attr = 1106051088, data = []\<rparr>,
      \<lparr>filename = ''widget-main/link'', external_attr = 2717843456, data = ''/etc/passwd''\<rparr>]"

definition tar_link :: "tar_member list" where
  "tar_link =
     [\<lparr>name = ''widget-main'', kind = DirType, mode = 493, content = []\<rparr>,
      \<lparr>name = ''widget-main/link'', kind = SymType, mode = 511, content = []\<rparr>,
      \<lparr>name = ''widget-main/hard'', kind = LnkType, mode = 420, content = []\<rparr>]"

definition tar_escape :: "tar_member list" where
  "tar_escape =
     [\<lparr>name = ''widget-main'', kind = DirType, mode = 493, content = []\<rparr>,
      \<lparr>name = ''widget-main/../other/../dst/y'', kind = DirType, mode = 493, content = []\<rparr>]"

definition zip_escape :: zipfile where
  "zip_escape =
     [\<lparr>filename = ''widget-main/'', external_attr = 1106051088, data = []\<rparr>,
      \<lparr>filename = ''widget-main/../other/../dst/y/'', external_attr = 1106051088, data = []\<rparr>]"

subsection \<open>What a filesystem keeps\<close>

text \<open>
  A later filesystem keeps an earlier one when every path that names a directory still
  names a directory and every path that names a file still names a file (whose content a
  later write may have replaced).
\<close>

definition keeps :: "node option \<Rightarrow> node option \<Rightarrow> bool" where
  "keeps a b =
     (case a of
        None \<Rightarrow> True
      | Some Dir \<Rightarrow> b = Some Dir
      | Some (File _ _) \<Rightarrow> (case b of Some (File _ _) \<Rightarrow> True | _ \<Rightarrow> False))"

definition fs_le :: "fs \<Rightarrow> fs \<Rightarrow> bool" where
  "fs_le a b = (\<forall>p. keeps (a p) (b p))"

text \<open>
  A transport whose first answer is the small tar archive, whose second request fails and
  whose third answer is an archive holding only its top directory.
\<close>

definition net_leftover :: transport where
  "net_leftover n req =
     (if n = 0 then Inr (tar_payload tar_small)
      else if n = 2
      then Inr (tar_payload [\<lparr>name = ''widget-main'', kind = DirType, mode = 493, content = []\<rparr>])
      else Inl (URLError ''down''))"

subsection \<open>Vocabulary for the skeleton\<close>

text \<open>
  A branch name that \<open>pathlib\<close> joins below \<open>refs/heads\<close>: relative, and without a \<open>..\<close>
  segment. Every name git accepts for a branch is of this kind.
\<close>

definition branch_ok :: "string \<Rightarrow> bool" where
  "branch_ok b = ((b = [] \<or> hd b \<noteq> CHR ''/'') \<and> ''..'' \<notin> set (path_parts b))"

text \<open>
  A successful write: the path named a node that was not a directory, and the node is now
  a file with the data written.
\<close>

definition wrote :: "fs \<Rightarrow> path \<Rightarrow> string \<Rightarrow> fs \<Rightarrow> bool" where
  "wrote a p x b =
     (\<exists>t m. target a p = Inr t \<and> a t \<noteq> Some Dir \<and> b = a(t \<mapsto> File x m))"

text \<open>
  A response that is a JSON object, and a transport that answers the two API requests with
  the branch \<open>main\<close> and a commit id and every later request with the small tar archive.
\<close>

definition json_payload :: "json_object \<Rightarrow> payload" where
  "json_payload j = \<lparr>no_bytes = False, as_text = [], as_json = Inr j,
     as_tar = Inl (ReadError ''not a gzip file''), as_zip = Inl (BadZipFile ''File is not a zip file'')\<rparr>"

definition net_api :: transport where
  "net_api n req =
     (if n = 0 then Inr (json_payload [(''name'', Some ''widget''), (''default_branch'', Some ''main'')])
      else if n = 1 then Inr (json_payload [(''sha'', Some sha_b)])
      else Inr (tar_payload tar_small))"

text \<open>
  A transport whose API names a default branch that climbs out of \<open>refs/heads\<close>.
\<close>

definition net_dotdot :: transport where
  "net_dotdot n req =
     (if n = 0 then Inr (json_payload [(''default_branch'', Some ''../../HEAD'')])
      else if n = 1 then Inr (json_payload [(''sha'', Some sha_b)])
      else Inr (tar_payload tar_small))"

text \<open>A world in which \<open>/w/file\<close> is a regular file.\<close>

definition w_file :: world where
  "w_file = \<lparr>files = fs0([''w'', ''file''] \<mapsto> File ''data'' None), requests = [], stderr = []\<rparr>"

section \<open>Properties\<close>

subsection \<open>Repository Locator\<close>

lemma split_on_no_sep: "s \<in> set (split_on c xs) \<Longrightarrow> c \<notin> set s"
proof (induction xs arbitrary: s)
  case Nil
  then show ?case by simp
next
  case (Cons x xs)
  then show ?case by (auto split: if_splits list.splits)
qed

lemma owner_repo_owner:
  assumes "owner_repo url = Inr (owner, repo)"
  shows "owner \<noteq> [] \<and> CHR ''/'' \<notin> set owner \<and> CHR ''/'' \<notin> set repo"
proof -
  obtain netloc path where up: "urlparse url = (netloc, path)" by (cases "urlparse url")
  define parts where "parts = filter (\<lambda>p. p \<noteq> []) (split_on CHR ''/'' path)"
  from assms up have len: "2 \<le> length parts"
    and o: "owner = parts ! (length parts - 2)"
    and r: "repo = (let r = parts ! (length parts - 1)
                    in if suffix ''.git'' r then take (length r - 4) r else r)"
    by (auto simp: owner_repo_def Let_def parts_def split: if_splits)
  have mem: "parts ! (length parts - 2) \<in> set parts" "parts ! (length parts - 1) \<in> set parts"
    using len by (auto intro: nth_mem)
  have ok: "\<And>p. p \<in> set parts \<Longrightarrow> p \<noteq> [] \<and> CHR ''/'' \<notin> set p"
    by (auto simp: parts_def dest: split_on_no_sep)
  have "CHR ''/'' \<notin> set repo"
    using ok[OF mem(2)] r by (auto simp: Let_def dest: in_set_takeD split: if_splits)
  with ok[OF mem(1)] o show ?thesis by simp
qed

lemma owner_repo_name_nonempty:
  assumes "owner_repo url = Inr (owner, repo)" and "repo = []"
  shows "\<exists>path. snd (urlparse url) = path \<and>
           last (filter (\<lambda>p. p \<noteq> []) (split_on CHR ''/'' path)) = ''.git''"
proof -
  obtain netloc path where up: "urlparse url = (netloc, path)" by (cases "urlparse url")
  define parts where "parts = filter (\<lambda>p. p \<noteq> []) (split_on CHR ''/'' path)"
  define r where "r = parts ! (length parts - 1)"
  from assms up have len: "2 \<le> length parts"
    and rp: "[] = (if suffix ''.git'' r then take (length r - 4) r else r)"
    by (auto simp: owner_repo_def Let_def parts_def r_def split: if_splits)
  have rl: "r = last parts" using len by (cases parts rule: rev_cases) (auto simp: r_def)
  have "r \<in> set parts" using len by (auto simp: r_def intro: nth_mem)
  then have "r \<noteq> []" by (auto simp: parts_def)
  with rp have s: "suffix ''.git'' r" and "length r \<le> 4" by (auto split: if_splits)
  then have "r = ''.git''" by (auto simp: suffix_def)
  with rl up show ?thesis by (simp add: parts_def)
qed

text \<open>
  C7. The claim: every accepted URL gives a non-empty owner and a non-empty name without
  path separators. The code at the URL \<open>https://github.com/acme/.git\<close>: the URL is
  accepted, and stripping the suffix \<open>.git\<close> from the last segment leaves the empty name.
\<close>

theorem owner_repo_dot_git_gives_empty_name:
  "owner_repo ''https://github.com/acme/.git'' = Inr (''acme'', [])"
  by (simp add: owner_repo_def urlparse_def split_scheme_def split_netloc_def strip_params_def
      uses_params_def lower_def lower_char_def is_alpha_def is_scheme_char_def is_digit_def
      suffix_def Let_def)

subsection \<open>Snapshot Acquisition Cascade\<close>

text \<open>Every tier sends exactly one request, to its own URL.\<close>

lemma http_requests:
  "requests (snd (http net u None None w)) =
     requests w @ [\<lparr>req_url = u, req_accept = None, req_authorization = None\<rparr>]"
  by (simp add: http_def Let_def)

lemma download_tar_stream_requests:
  "requests (snd (download_tar_stream net u dst w)) =
     requests w @ [\<lparr>req_url = u, req_accept = None, req_authorization = None\<rparr>]"
  using http_requests[of net u w]
  by (auto simp: download_tar_stream_def split: prod.splits sum.splits)

lemma fetch_bytes_requests:
  "requests (snd (fetch_bytes net u w)) =
     requests w @ [\<lparr>req_url = u, req_accept = None, req_authorization = None\<rparr>]"
  using http_requests[of net u w]
  by (auto simp: fetch_bytes_def read_url_def split: prod.splits sum.splits)

lemma download_tar_buffered_requests:
  "requests (snd (download_tar_buffered net u dst w)) =
     requests w @ [\<lparr>req_url = u, req_accept = None, req_authorization = None\<rparr>]"
  using fetch_bytes_requests[of net u w]
  by (auto simp: download_tar_buffered_def split: prod.splits sum.splits)

lemma download_zip_buffered_requests:
  "requests (snd (download_zip_buffered net u dst w)) =
     requests w @ [\<lparr>req_url = u, req_accept = None, req_authorization = None\<rparr>]"
  using fetch_bytes_requests[of net u w]
  by (auto simp: download_zip_buffered_def split: prod.splits sum.splits)

lemma run_tier_requests:
  "requests (snd (run_tier net dst owner repo ref_sha branch_name t w)) =
     requests w @ [tier_request owner repo ref_sha branch_name t]"
  by (cases t)
     (simp_all add: tier_request_def download_tar_stream_requests
        download_tar_buffered_requests download_zip_buffered_requests)

lemma world_after_Nil:
  "world_after net dst owner repo ref_sha branch_name [] w = w"
  by (simp add: world_after_def)

lemma world_after_Cons:
  "world_after net dst owner repo ref_sha branch_name (t # ts) w =
     world_after net dst owner repo ref_sha branch_name ts
       (snd (run_tier net dst owner repo ref_sha branch_name t w))"
  by (simp add: world_after_def)

lemma world_after_snoc:
  "world_after net dst owner repo ref_sha branch_name (ts @ [t]) w =
     snd (run_tier net dst owner repo ref_sha branch_name t
            (world_after net dst owner repo ref_sha branch_name ts w))"
  by (simp add: world_after_def)

lemma world_after_requests:
  "requests (world_after net dst owner repo ref_sha branch_name ts w) =
     requests w @ map (tier_request owner repo ref_sha branch_name) ts"
  by (induction ts arbitrary: w) (simp_all add: world_after_def run_tier_requests)

lemma download_snapshot_attempts:
  "download_snapshot net dst owner repo ref_sha branch_name w =
     outcome_of (attempts net dst owner repo ref_sha branch_name tiers w) w"
  unfolding download_snapshot_def tiers_def outcome_of_def
  by (simp split: prod.splits option.splits)

lemma attempts_split:
  assumes "k \<le> length ts"
    and "\<forall>i<k. fst (run_tier net dst owner repo ref_sha branch_name (ts ! i)
                  (world_after net dst owner repo ref_sha branch_name (take i ts) w)) \<noteq> None"
  shows "attempts net dst owner repo ref_sha branch_name ts w =
           map (\<lambda>i. (ts ! i, run_tier net dst owner repo ref_sha branch_name (ts ! i)
                               (world_after net dst owner repo ref_sha branch_name (take i ts) w)))
               [0..<k]
           @ attempts net dst owner repo ref_sha branch_name (drop k ts)
               (world_after net dst owner repo ref_sha branch_name (take k ts) w)"
  using assms
proof (induction ts arbitrary: k w)
  case Nil
  then show ?case by (simp add: world_after_def)
next
  case (Cons t ts)
  show ?case
  proof (cases k)
    case 0
    then show ?thesis by (simp add: world_after_def)
  next
    case (Suc k')
    with Cons.prems(2) have "fst (run_tier net dst owner repo ref_sha branch_name t w) \<noteq> None"
      by (auto simp: world_after_def dest: spec[of _ 0])
    then obtain e w1 where r: "run_tier net dst owner repo ref_sha branch_name t w = (Some e, w1)"
      by (cases "run_tier net dst owner repo ref_sha branch_name t w") auto
    have k': "k' \<le> length ts" using Cons.prems(1) Suc by simp
    have f: "\<forall>i<k'. fst (run_tier net dst owner repo ref_sha branch_name (ts ! i)
                  (world_after net dst owner repo ref_sha branch_name (take i ts) w1)) \<noteq> None"
    proof (intro allI impI)
      fix i assume "i < k'"
      then have "Suc i < k" using Suc by simp
      with Cons.prems(2) have "fst (run_tier net dst owner repo ref_sha branch_name ((t # ts) ! Suc i)
                  (world_after net dst owner repo ref_sha branch_name (take (Suc i) (t # ts)) w)) \<noteq> None"
        by blast
      then show "fst (run_tier net dst owner repo ref_sha branch_name (ts ! i)
                  (world_after net dst owner repo ref_sha branch_name (take i ts) w1)) \<noteq> None"
        by (simp add: world_after_Cons r)
    qed
    show ?thesis
      using Cons.IH[OF k' f]
      by (simp add: Suc r world_after_Cons world_after_Nil map_upt_Suc del: upt_Suc)
  qed
qed

lemma cascade_success_general:
  assumes "k < 6"
    and "\<forall>i<k. tier_outcome net dst owner repo ref_sha branch_name w i \<noteq> None"
    and "tier_outcome net dst owner repo ref_sha branch_name w k = None"
  shows "attempts net dst owner repo ref_sha branch_name tiers w =
           map (\<lambda>i. (tiers ! i, run_tier net dst owner repo ref_sha branch_name (tiers ! i)
                               (world_after net dst owner repo ref_sha branch_name (take i tiers) w)))
               [0..<Suc k]"
proof -
  have len: "length tiers = 6" by (simp add: tiers_def)
  let ?wk = "world_after net dst owner repo ref_sha branch_name (take k tiers) w"
  obtain w' where r: "run_tier net dst owner repo ref_sha branch_name (tiers ! k) ?wk = (None, w')"
    using assms(3) by (cases "run_tier net dst owner repo ref_sha branch_name (tiers ! k) ?wk")
      (auto simp: tier_outcome_def)
  have d: "drop k tiers = tiers ! k # drop (Suc k) tiers"
    using assms(1) len by (simp add: Cons_nth_drop_Suc)
  have "attempts net dst owner repo ref_sha branch_name tiers w =
          map (\<lambda>i. (tiers ! i, run_tier net dst owner repo ref_sha branch_name (tiers ! i)
                               (world_after net dst owner repo ref_sha branch_name (take i tiers) w)))
               [0..<k]
           @ attempts net dst owner repo ref_sha branch_name (drop k tiers) ?wk"
    using assms(1,2) len by (intro attempts_split) (auto simp: tier_outcome_def)
  then show ?thesis by (simp add: d r)
qed

lemma map_nth_upt_take: "n \<le> length xs \<Longrightarrow> map (\<lambda>i. xs ! i) [0..<n] = take n xs"
  by (simp add: list_eq_iff_nth_eq)

lemma cascade_first_success:
  assumes "k < 6"
    and "\<forall>i<k. tier_outcome net dst owner repo ref_sha branch_name w i \<noteq> None"
    and "tier_outcome net dst owner repo ref_sha branch_name w k = None"
  shows "download_snapshot net dst owner repo ref_sha branch_name w =
           (None, world_after net dst owner repo ref_sha branch_name (take (Suc k) tiers) w)
         \<and> map fst (attempts net dst owner repo ref_sha branch_name tiers w) = take (Suc k) tiers
         \<and> requests (snd (download_snapshot net dst owner repo ref_sha branch_name w)) =
             requests w @ map (tier_request owner repo ref_sha branch_name) (take (Suc k) tiers)"
proof -
  have len: "length tiers = 6" by (simp add: tiers_def)
  let ?f = "\<lambda>i. (tiers ! i, run_tier net dst owner repo ref_sha branch_name (tiers ! i)
                      (world_after net dst owner repo ref_sha branch_name (take i tiers) w))"
  have as: "attempts net dst owner repo ref_sha branch_name tiers w = map ?f [0..<Suc k]"
    using assms by (rule cascade_success_general)
  have tk: "take (Suc k) tiers = take k tiers @ [tiers ! k]"
    using assms(1) len by (simp add: take_Suc_conv_app_nth)
  have lastw: "snd (snd (?f k)) =
      world_after net dst owner repo ref_sha branch_name (take (Suc k) tiers) w"
    by (simp add: tk world_after_snoc)
  have lastr: "fst (snd (?f k)) = None"
    using assms(3) by (simp add: tier_outcome_def)
  have notall: "\<not> list_all (\<lambda>(t, r, w). r \<noteq> None) (map ?f [0..<Suc k])"
    using lastr by (simp add: list_all_iff case_prod_beta)
  have res: "download_snapshot net dst owner repo ref_sha branch_name w =
           (None, world_after net dst owner repo ref_sha branch_name (take (Suc k) tiers) w)"
    using notall lastw
    by (simp add: download_snapshot_attempts as outcome_of_def del: upt_Suc)
       (simp add: last_map)
  have ord: "map fst (attempts net dst owner repo ref_sha branch_name tiers w) = take (Suc k) tiers"
    using assms(1) len map_nth_upt_take[of "Suc k" tiers]
    by (simp add: as comp_def del: upt_Suc)
  show ?thesis
    by (simp add: res ord world_after_requests)
qed

text \<open>
  C3. The cascade tries its six tiers in the fixed order and stops at the first that
  completes without error: when the tiers before the k-th (counted from 0) fail and the
  k-th succeeds, the cascade returns normally in the world that these k + 1 tiers have
  left, the tiers attempted are the first k + 1 of the fixed list, and the requests sent
  are exactly theirs, in that order; no later tier is attempted.
\<close>

theorem cascade_stops_at_first_success:
  assumes "k < 6"
    and "\<forall>i<k. tier_outcome net dst owner repo ref_sha branch_name w i \<noteq> None"
    and "tier_outcome net dst owner repo ref_sha branch_name w k = None"
  shows "download_snapshot net dst owner repo ref_sha branch_name w =
           (None, world_after net dst owner repo ref_sha branch_name (take (Suc k) tiers) w)
         \<and> map fst (attempts net dst owner repo ref_sha branch_name tiers w) = take (Suc k) tiers
         \<and> requests (snd (download_snapshot net dst owner repo ref_sha branch_name w)) =
             requests w @ map (tier_request owner repo ref_sha branch_name) (take (Suc k) tiers)"
  using assms by (rule cascade_first_success)

lemma net_second_outcome_0:
  "tier_outcome net_second [''w'', ''dst''] ''acme'' ''widget'' ''abc1234'' ''main'' w0 0 \<noteq> None"
  by (simp add: tier_outcome_def tiers_def world_after_def download_tar_stream_def http_def
      net_second_def w0_def)

lemma net_second_outcome_1:
  "tier_outcome net_second [''w'', ''dst''] ''acme'' ''widget'' ''abc1234'' ''main'' w0 1 = None"
  by (simp add: tier_outcome_def tiers_def world_after_def download_tar_stream_def http_def
      net_second_def w0_def tar_payload_def extract_tar_to_def tar_prefix_def isdir_def
      rstrip_slash_def tar_rel_def)

theorem cascade_stops_at_first_success_witness:
  "tier_outcome net_second [''w'', ''dst''] ''acme'' ''widget'' ''abc1234'' ''main'' w0 0 \<noteq> None
   \<and> tier_outcome net_second [''w'', ''dst''] ''acme'' ''widget'' ''abc1234'' ''main'' w0 1 = None
   \<and> fst (download_snapshot net_second [''w'', ''dst''] ''acme'' ''widget'' ''abc1234'' ''main'' w0) = None
   \<and> map req_url (requests (snd (download_snapshot net_second [''w'', ''dst''] ''acme'' ''widget''
         ''abc1234'' ''main'' w0))) =
       [''https://codeload.github.com/acme/widget/tar.gz/abc1234'',
        ''https://codeload.github.com/acme/widget/tar.gz/main'']"
proof -
  have h0: "\<forall>i<1. tier_outcome net_second [''w'', ''dst''] ''acme'' ''widget'' ''abc1234'' ''main'' w0 i \<noteq> None"
    using net_second_outcome_0 by simp
  have r: "requests w0 = []" by (simp add: w0_def)
  show ?thesis
    using cascade_stops_at_first_success[OF _ h0 net_second_outcome_1] net_second_outcome_0
      net_second_outcome_1 r
    by (simp add: tiers_def tier_request_def codeload_def world_after_requests)
qed

text \<open>
  C5. The cascade raises if and only if all six tiers fail, and the error raised then is
  the \<open>RuntimeError\<close> whose message joins, after the fixed opening, the label and the error
  text of each of the six tiers, in order.
\<close>

theorem snapshot_unavailable_iff_all_fail:
  "fst (download_snapshot net dst owner repo ref_sha branch_name w) =
     (if \<forall>i<6. tier_outcome net dst owner repo ref_sha branch_name w i \<noteq> None
      then Some (RuntimeError (msg_snapshot_failed @ join ''; ''
             (map (\<lambda>i. tier_label (tiers ! i) @ '': '' @
                        (case tier_outcome net dst owner repo ref_sha branch_name w i of
                           Some e \<Rightarrow> str_exn e | None \<Rightarrow> []))
                  [0..<6])))
      else None)"
proof (cases "\<forall>i<6. tier_outcome net dst owner repo ref_sha branch_name w i \<noteq> None")
  case True
  have len: "length tiers = 6" by (simp add: tiers_def)
  let ?f = "\<lambda>i. (tiers ! i, run_tier net dst owner repo ref_sha branch_name (tiers ! i)
                      (world_after net dst owner repo ref_sha branch_name (take i tiers) w))"
  have "attempts net dst owner repo ref_sha branch_name tiers w =
          map ?f [0..<6] @ attempts net dst owner repo ref_sha branch_name (drop 6 tiers)
               (world_after net dst owner repo ref_sha branch_name (take 6 tiers) w)"
    using True len by (intro attempts_split) (auto simp: tier_outcome_def)
  then have as: "attempts net dst owner repo ref_sha branch_name tiers w = map ?f [0..<6]"
    using len by simp
  have allf: "list_all (\<lambda>(t, r, w). r \<noteq> None) (map ?f [0..<6])"
    using True by (auto simp: list_all_iff tier_outcome_def split: prod.splits)
  have ne: "map ?f [0..<6] \<noteq> []" by simp
  show ?thesis
    using True allf ne
    by (simp only: download_snapshot_attempts as outcome_of_def if_True if_False fst_conv)
       (simp add: comp_def tier_outcome_def case_prod_beta)
next
  case False
  then have "\<exists>k. k < 6 \<and> tier_outcome net dst owner repo ref_sha branch_name w k = None" by auto
  then obtain k where k: "k < 6" "tier_outcome net dst owner repo ref_sha branch_name w k = None"
    and least: "\<forall>m<k. \<not> (m < 6 \<and> tier_outcome net dst owner repo ref_sha branch_name w m = None)"
    using exists_least_iff[of "\<lambda>k. k < 6 \<and> tier_outcome net dst owner repo ref_sha branch_name w k = None"]
    by auto
  from least k(1) have "\<forall>i<k. tier_outcome net dst owner repo ref_sha branch_name w i \<noteq> None"
    by auto
  from cascade_first_success[OF k(1) this k(2)] False show ?thesis by simp
qed

lemma net_down_outcome:
  "tier_outcome net_down dst owner repo ref_sha branch_name w i = Some (URLError ''down'')"
proof -
  have "fst (run_tier net_down dst owner repo ref_sha branch_name t w') = Some (URLError ''down'')"
    for t w'
    by (cases t) (simp_all add: download_tar_stream_def download_tar_buffered_def
        download_zip_buffered_def fetch_bytes_def read_url_def http_def net_down_def)
  then show ?thesis by (simp add: tier_outcome_def)
qed

theorem snapshot_unavailable_iff_all_fail_witness:
  "tier_outcome net_down [''w'', ''dst''] ''acme'' ''widget'' ''abc1234'' ''main'' w0 0 \<noteq> None
   \<and> tier_outcome net_down [''w'', ''dst''] ''acme'' ''widget'' ''abc1234'' ''main'' w0 1 \<noteq> None
   \<and> tier_outcome net_down [''w'', ''dst''] ''acme'' ''widget'' ''abc1234'' ''main'' w0 2 \<noteq> None
   \<and> tier_outcome net_down [''w'', ''dst''] ''acme'' ''widget'' ''abc1234'' ''main'' w0 3 \<noteq> None
   \<and> tier_outcome net_down [''w'', ''dst''] ''acme'' ''widget'' ''abc1234'' ''main'' w0 4 \<noteq> None
   \<and> tier_outcome net_down [''w'', ''dst''] ''acme'' ''widget'' ''abc1234'' ''main'' w0 5 \<noteq> None
   \<and> fst (download_snapshot net_down [''w'', ''dst''] ''acme'' ''widget'' ''abc1234'' ''main'' w0) =
       Some (RuntimeError (msg_snapshot_failed @
         ''tar.gz(stream)@sha: down; tar.gz(stream)@branch: down; tar.gz@sha: down; tar.gz@branch: down; zip@sha: down; zip@branch: down''))"
proof -
  have u: "[0..<6] = [0, 1, 2, 3, 4, 5::nat]" by (simp add: upt_rec)
  show ?thesis
    using snapshot_unavailable_iff_all_fail[of net_down "[''w'', ''dst'']" "''acme''" "''widget''"
        "''abc1234''" "''main''" w0]
    by (simp add: net_down_outcome u tiers_def)
qed

subsection \<open>Reference Resolver\<close>

lemma commits_loop_first_match:
  "commits_loop net owner repo bs w = first_match net owner repo (map (Pair CommitsPage) bs) w"
  by (induction bs arbitrary: w) (auto split: prod.splits sum.splits option.splits)

lemma tree_loop_first_match:
  "tree_loop net owner repo bs w = first_match net owner repo (map (Pair TreePage) bs) w"
  by (induction bs arbitrary: w) (auto split: prod.splits sum.splits option.splits)

lemma first_match_append:
  "first_match net owner repo (ps @ qs) w =
     (case first_match net owner repo ps w of
        (Some r, w1) \<Rightarrow> (Some r, w1)
      | (None, w1) \<Rightarrow> first_match net owner repo qs w1)"
  by (induction ps arbitrary: w) (auto split: prod.splits option.splits)

lemma guess_first_match:
  "guess_default_sha_html net owner repo branch_hint w =
     (case first_match net owner repo (html_pages branch_hint) w of
        (Some r, w1) \<Rightarrow> (Inr r, w1)
      | (None, w1) \<Rightarrow> (Inl (RuntimeError msg_html_failed), w1))"
  by (simp add: guess_default_sha_html_def html_pages_def first_match_append
      commits_loop_first_match tree_loop_first_match split: prod.splits option.splits)

lemma pages_after_Nil: "pages_after net owner repo [] w = w"
  by (simp add: pages_after_def)

lemma pages_after_Cons:
  "pages_after net owner repo (p # ps) w =
     pages_after net owner repo ps (snd (try_page net owner repo p w))"
  by (simp add: pages_after_def)

lemma pages_after_snoc:
  "pages_after net owner repo (ps @ [p]) w =
     snd (try_page net owner repo p (pages_after net owner repo ps w))"
  by (simp add: pages_after_def)

lemma first_match_none:
  assumes "\<forall>i<length ps. fst (try_page net owner repo (ps ! i)
                              (pages_after net owner repo (take i ps) w)) = None"
  shows "first_match net owner repo ps w = (None, pages_after net owner repo ps w)"
  using assms
proof (induction ps arbitrary: w)
  case Nil
  then show ?case by (simp add: pages_after_Nil)
next
  case (Cons p ps)
  from Cons.prems have "fst (try_page net owner repo p w) = None"
    by (auto simp: pages_after_Nil dest: spec[of _ 0])
  then obtain w1 where r: "try_page net owner repo p w = (None, w1)"
    by (cases "try_page net owner repo p w") auto
  have "\<forall>i<length ps. fst (try_page net owner repo (ps ! i)
                              (pages_after net owner repo (take i ps) w1)) = None"
  proof (intro allI impI)
    fix i assume "i < length ps"
    then have "Suc i < length (p # ps)" by simp
    with Cons.prems have "fst (try_page net owner repo ((p # ps) ! Suc i)
                              (pages_after net owner repo (take (Suc i) (p # ps)) w)) = None"
      by blast
    then show "fst (try_page net owner repo (ps ! i)
                              (pages_after net owner repo (take i ps) w1)) = None"
      by (simp add: pages_after_Cons r)
  qed
  from Cons.IH[OF this] show ?case by (simp add: r pages_after_Cons)
qed

lemma first_match_some:
  assumes "k < length ps"
    and "\<forall>i<k. fst (try_page net owner repo (ps ! i)
                      (pages_after net owner repo (take i ps) w)) = None"
    and "fst (try_page net owner repo (ps ! k)
                (pages_after net owner repo (take k ps) w)) = Some sha"
  shows "first_match net owner repo ps w =
           (Some (snd (ps ! k), sha), pages_after net owner repo (take (Suc k) ps) w)"
  using assms
proof (induction ps arbitrary: w k)
  case Nil
  then show ?case by simp
next
  case (Cons p ps)
  show ?case
  proof (cases k)
    case 0
    with Cons.prems(3) obtain w1 where "try_page net owner repo p w = (Some sha, w1)"
      by (cases "try_page net owner repo p w") (auto simp: pages_after_Nil)
    then show ?thesis using 0 by (simp add: pages_after_Cons pages_after_Nil)
  next
    case (Suc k')
    with Cons.prems(2) have "fst (try_page net owner repo p w) = None"
      by (auto simp: pages_after_Nil dest: spec[of _ 0])
    then obtain w1 where r: "try_page net owner repo p w = (None, w1)"
      by (cases "try_page net owner repo p w") auto
    have k': "k' < length ps" using Cons.prems(1) Suc by simp
    have f: "\<forall>i<k'. fst (try_page net owner repo (ps ! i)
                      (pages_after net owner repo (take i ps) w1)) = None"
    proof (intro allI impI)
      fix i assume "i < k'"
      then have "Suc i < k" using Suc by simp
      with Cons.prems(2) have "fst (try_page net owner repo ((p # ps) ! Suc i)
                      (pages_after net owner repo (take (Suc i) (p # ps)) w)) = None"
        by blast
      then show "fst (try_page net owner repo (ps ! i)
                      (pages_after net owner repo (take i ps) w1)) = None"
        by (simp add: pages_after_Cons r)
    qed
    have s: "fst (try_page net owner repo (ps ! k')
                (pages_after net owner repo (take k' ps) w1)) = Some sha"
      using Cons.prems(3) by (simp add: Suc pages_after_Cons r)
    from Cons.IH[OF k' f s] show ?thesis by (simp add: Suc r pages_after_Cons)
  qed
qed

lemma search_Some: "search f s = Some r \<Longrightarrow> \<exists>t. f t = Some r"
  by (induction s) (auto split: option.splits)

lemma match_commit_href_shape:
  "match_commit_href owner repo s = Some h \<Longrightarrow> length h = 40 \<and> list_all is_hex h"
  by (auto simp: match_commit_href_def Let_def split: if_splits)

lemma match_tease_tail_shape:
  "match_tease_tail s = Some h \<Longrightarrow> 7 \<le> length h \<and> length h \<le> 40 \<and> list_all is_hex h"
  by (auto simp: match_tease_tail_def Let_def list_all_iff split: list.splits if_splits
      dest: set_takeWhileD)

lemma match_commit_tease_shape:
  "match_commit_tease s = Some h \<Longrightarrow> 7 \<le> length h \<and> length h \<le> 40 \<and> list_all is_hex h"
  by (auto simp: match_commit_tease_def Let_def split: if_splits
      dest!: search_Some match_tease_tail_shape)

lemma try_page_shape:
  assumes "fst (try_page net owner repo (kd, b) w) = Some sha"
  shows "list_all is_hex sha \<and> 7 \<le> length sha \<and> length sha \<le> 40
         \<and> (kd = CommitsPage \<longrightarrow> length sha = 40)"
proof (cases kd)
  case CommitsPage
  with assms obtain html where "search (match_commit_href owner repo) html = Some sha"
    by (auto split: prod.splits sum.splits)
  then obtain t where "match_commit_href owner repo t = Some sha"
    by (auto dest: search_Some)
  then show ?thesis using CommitsPage by (auto dest: match_commit_href_shape)
next
  case TreePage
  with assms obtain html where "search match_commit_tease html = Some sha"
    by (auto split: prod.splits sum.splits)
  then obtain t where "match_commit_tease t = Some sha"
    by (auto dest: search_Some)
  then show ?thesis using TreePage by (auto dest: match_commit_tease_shape)
qed

declare try_page.simps [simp del]

lemma try_page_requests:
  "requests (snd (try_page net owner repo p w)) = requests w @ [page_request owner repo p]"
proof (cases p)
  case (Pair kd b)
  then show ?thesis
    using http_requests[of net "''https://github.com/'' @ owner @ ''/'' @ repo @ ''/commits/'' @ b" w]
      http_requests[of net "''https://github.com/'' @ owner @ ''/'' @ repo @ ''/tree/'' @ b" w]
    by (cases kd) (auto simp: try_page.simps page_request_def scrape_def read_url_def split: prod.splits sum.splits)
qed

lemma pages_after_requests:
  "requests (pages_after net owner repo ps w) = requests w @ map (page_request owner repo) ps"
  by (induction ps arbitrary: w) (simp_all add: pages_after_def try_page_requests)

text \<open>
  C6, as the code has it. The resolver reads the commit-history pages of the candidate
  branches (the hint if any, then \<open>main\<close>, then \<open>master\<close>) and only after all of them the
  tree pages of the same candidates. The first page in that order that yields a match
  gives the result: its branch and the id matched, which is hexadecimal, of 40 characters
  from a commit-history page and of 7 to 40 from a tree page. When no page yields a match
  the resolver raises its \<open>RuntimeError\<close>, having requested every page.
\<close>

theorem html_resolution_order:
  "(k < length (html_pages branch_hint)
      \<and> (\<forall>i<k. page_outcome net owner repo branch_hint w i = None)
      \<and> page_outcome net owner repo branch_hint w k = Some sha
    \<longrightarrow> guess_default_sha_html net owner repo branch_hint w =
          (Inr (snd (html_pages branch_hint ! k), sha),
           pages_after net owner repo (take (Suc k) (html_pages branch_hint)) w)
        \<and> list_all is_hex sha \<and> 7 \<le> length sha \<and> length sha \<le> 40
        \<and> (fst (html_pages branch_hint ! k) = CommitsPage \<longrightarrow> length sha = 40))
   \<and> ((\<forall>i<length (html_pages branch_hint). page_outcome net owner repo branch_hint w i = None)
    \<longrightarrow> guess_default_sha_html net owner repo branch_hint w =
          (Inl (RuntimeError msg_html_failed),
           pages_after net owner repo (html_pages branch_hint) w))
   \<and> requests (pages_after net owner repo (html_pages branch_hint) w) =
       requests w @ map (page_request owner repo) (html_pages branch_hint)
   \<and> html_pages branch_hint =
       map (Pair CommitsPage) (candidates branch_hint) @ map (Pair TreePage) (candidates branch_hint)"
proof (intro conjI impI)
  assume a: "k < length (html_pages branch_hint)
      \<and> (\<forall>i<k. page_outcome net owner repo branch_hint w i = None)
      \<and> page_outcome net owner repo branch_hint w k = Some sha"
  then have "first_match net owner repo (html_pages branch_hint) w =
      (Some (snd (html_pages branch_hint ! k), sha),
       pages_after net owner repo (take (Suc k) (html_pages branch_hint)) w)"
    by (intro first_match_some) (auto simp: page_outcome_def)
  then show "guess_default_sha_html net owner repo branch_hint w =
          (Inr (snd (html_pages branch_hint ! k), sha),
           pages_after net owner repo (take (Suc k) (html_pages branch_hint)) w)"
    by (simp add: guess_first_match)
  obtain kd b where p: "html_pages branch_hint ! k = (kd, b)"
    by (cases "html_pages branch_hint ! k")
  from a have "fst (try_page net owner repo (kd, b)
      (pages_after net owner repo (take k (html_pages branch_hint)) w)) = Some sha"
    by (simp add: page_outcome_def p)
  from try_page_shape[OF this]
  show "list_all is_hex sha" "7 \<le> length sha" "length sha \<le> 40"
    and "fst (html_pages branch_hint ! k) = CommitsPage \<Longrightarrow> length sha = 40"
    by (simp_all add: p)
next
  assume "\<forall>i<length (html_pages branch_hint). page_outcome net owner repo branch_hint w i = None"
  then have "first_match net owner repo (html_pages branch_hint) w =
      (None, pages_after net owner repo (html_pages branch_hint) w)"
    by (intro first_match_none) (auto simp: page_outcome_def)
  then show "guess_default_sha_html net owner repo branch_hint w =
          (Inl (RuntimeError msg_html_failed),
           pages_after net owner repo (html_pages branch_hint) w)"
    by (simp add: guess_first_match)
qed (simp_all add: pages_after_requests html_pages_def)

lemma net_pages_commits_main:
  "try_page net_pages ''acme'' ''widget'' (CommitsPage, ''main'') w =
     (None, w\<lparr>requests := requests w @ [page_request ''acme'' ''widget'' (CommitsPage, ''main'')]\<rparr>)"
  by (simp add: try_page.simps scrape_def read_url_def http_def net_pages_def html_payload_def page_request_def
      match_commit_href_def starts_ci_def lower_def lower_char_def Let_def)

lemma net_pages_tree_main:
  "fst (try_page net_pages ''acme'' ''widget'' (TreePage, ''main'') w) = Some ''1234abc''"
  by (simp add: try_page.simps scrape_def read_url_def http_def net_pages_def html_payload_def
      match_commit_tease_def match_tease_tail_def starts_ci_def lower_def lower_char_def is_hex_def
      is_digit_def Let_def)

lemma net_pages_commits_master:
  "fst (try_page net_pages ''acme'' ''widget'' (CommitsPage, ''master'') w) = Some sha_b"
  by (simp add: try_page.simps scrape_def read_url_def http_def net_pages_def html_payload_def sha_b_def
      match_commit_href_def starts_ci_def lower_def lower_char_def is_hex_def
      is_digit_def Let_def)

lemma html_pages_None:
  "html_pages None = [(CommitsPage, ''main''), (CommitsPage, ''master''),
                      (TreePage, ''main''), (TreePage, ''master'')]"
  by (simp add: html_pages_def candidates_def)

lemma net_pages_outcome_0: "page_outcome net_pages ''acme'' ''widget'' None w0 0 = None"
  by (simp add: page_outcome_def html_pages_None pages_after_Nil net_pages_commits_main)

lemma net_pages_outcome_1: "page_outcome net_pages ''acme'' ''widget'' None w0 1 = Some sha_b"
  by (simp add: page_outcome_def html_pages_None pages_after_Cons pages_after_Nil
      net_pages_commits_master)

theorem html_resolution_order_witness:
  "page_outcome net_pages ''acme'' ''widget'' None w0 0 = None
   \<and> page_outcome net_pages ''acme'' ''widget'' None w0 1 = Some sha_b
   \<and> fst (guess_default_sha_html net_pages ''acme'' ''widget'' None w0) = Inr (''master'', sha_b)
   \<and> length sha_b = 40"
proof -
  have h: "\<forall>i<1. page_outcome net_pages ''acme'' ''widget'' None w0 i = None"
    using net_pages_outcome_0 by simp
  show ?thesis
    using html_resolution_order[of 1 None net_pages "''acme''" "''widget''" w0 sha_b]
      h net_pages_outcome_0 net_pages_outcome_1
    by (simp add: html_pages_None)
qed

text \<open>
  C6 as claimed (each branch's commit-history page and then its tree page, before the
  next branch) fails: with no hint, the commit-history page of \<open>main\<close> has no match and
  its tree page has one, yet the result is \<open>master\<close> with the id of its commit-history
  page, and the tree page of \<open>main\<close> is never requested.
\<close>

theorem html_resolution_interleaved_counterexample:
  "fst (try_page net_pages ''acme'' ''widget'' (CommitsPage, ''main'') w0) = None
   \<and> fst (try_page net_pages ''acme'' ''widget'' (TreePage, ''main'')
            (snd (try_page net_pages ''acme'' ''widget'' (CommitsPage, ''main'') w0))) = Some ''1234abc''
   \<and> fst (guess_default_sha_html net_pages ''acme'' ''widget'' None w0) = Inr (''master'', sha_b)
   \<and> map req_url (requests (snd (guess_default_sha_html net_pages ''acme'' ''widget'' None w0))) =
       [''https://github.com/acme/widget/commits/main'',
        ''https://github.com/acme/widget/commits/master'']"
proof -
  let ?w1 = "snd (try_page net_pages ''acme'' ''widget'' (CommitsPage, ''main'') w0)"
  obtain w2 where r2: "try_page net_pages ''acme'' ''widget'' (CommitsPage, ''master'') ?w1 = (Some sha_b, w2)"
    using net_pages_commits_master[of ?w1]
    by (cases "try_page net_pages ''acme'' ''widget'' (CommitsPage, ''master'') ?w1") auto
  have w2: "requests w2 = requests ?w1 @ [page_request ''acme'' ''widget'' (CommitsPage, ''master'')]"
    using try_page_requests[of net_pages "''acme''" "''widget''" "(CommitsPage, ''master'')" ?w1]
    by (simp add: r2)
  have g: "guess_default_sha_html net_pages ''acme'' ''widget'' None w0 = (Inr (''master'', sha_b), w2)"
    using r2 by (simp add: guess_first_match html_pages_None net_pages_commits_main)
  have w2': "map req_url (requests w2) =
      [''https://github.com/acme/widget/commits/main'',
       ''https://github.com/acme/widget/commits/master'']"
    using w2 by (simp add: net_pages_commits_main page_request_def w0_def)
  show ?thesis
    using w2' by (simp add: g net_pages_tree_main net_pages_commits_main)
qed

subsection \<open>Archive Extractor: the common prefix\<close>










lemma zip_two_roots_prefix: "zip_prefix (namelist zip_two_roots) = ''a/''"
  by code_simp



subsection \<open>Archive Extractor: links and containment\<close>

text \<open>
  The tar extractor passes over a symbolic or hard link member without touching the
  filesystem.
\<close>

lemma tar_loop_skips_links:
  "issym m \<or> islnk m \<Longrightarrow> tar_loop tf dst pfx (m # ms) fs = tar_loop tf dst pfx ms fs"
  by (simp add: Let_def split: option.splits)

lemma tar_link_example:
  "fst (extract_tar_to \<lparr>streamed = False, members = tar_link\<rparr> [''w'', ''dst''] fs0) = None
   \<and> snd (extract_tar_to \<lparr>streamed = False, members = tar_link\<rparr> [''w'', ''dst''] fs0)
         [''w'', ''dst'', ''link''] = None
   \<and> snd (extract_tar_to \<lparr>streamed = False, members = tar_link\<rparr> [''w'', ''dst''] fs0)
         [''w'', ''dst'', ''hard''] = None"
  by code_simp

text \<open>
  C2. The claim: in either format a link entry produces neither a link nor a regular file.
  The code, on a zip archive whose entry \<open>widget-main/link\<close> is a symbolic link to
  \<open>/etc/passwd\<close>: the extraction succeeds and has written the regular file \<open>/w/dst/link\<close>
  holding the link target as its content.
\<close>

theorem zip_symlink_written_as_file:
  "zip_is_symlink (zip_link ! 1)
   \<and> filename (zip_link ! 1) = ''widget-main/link''
   \<and> fst (extract_zip_to zip_link [''w'', ''dst''] fs0) = None
   \<and> fs0 [''w'', ''dst'', ''link''] = None
   \<and> snd (extract_zip_to zip_link [''w'', ''dst''] fs0) [''w'', ''dst'', ''link'']
       = Some (File ''/etc/passwd'' (Some 511))"
  by code_simp

text \<open>
  An entry whose resolved output path is not strictly inside the destination is passed
  over, in both formats, without an error and without touching the filesystem: so are
  paths that climb out with \<open>..\<close>, absolute paths, the root itself and a sibling whose name
  starts with the name of the root.
\<close>

lemma tar_loop_skips_outside:
  "tar_rel pfx m = Some rel \<Longrightarrow> \<not> is_within dst (join_path dst rel) \<Longrightarrow>
   tar_loop tf dst pfx (m # ms) fs = tar_loop tf dst pfx ms fs"
  by (simp add: Let_def)

lemma zip_loop_skips_outside:
  "zip_rel pfx n = Some rel \<Longrightarrow> \<not> is_within dst (resolve (join_path dst rel)) \<Longrightarrow>
   zip_loop zf dst pfx (n # ns) fs = zip_loop zf dst pfx ns fs"
  by (simp add: Let_def)

lemma outside_examples:
  "\<not> is_within [''w'', ''dst''] (join_path [''w'', ''dst''] ''../../etc/passwd'')
   \<and> \<not> is_within [''w'', ''dst''] (join_path [''w'', ''dst''] ''/etc/passwd'')
   \<and> \<not> is_within [''w'', ''dst''] (join_path [''w'', ''dst''] ''a/../..'')
   \<and> \<not> is_within [''w'', ''dst''] (join_path [''w'', ''dst''] ''../dst2/x'')
   \<and> \<not> is_within [''w'', ''dst''] (join_path [''w'', ''dst''] ''a/..'')
   \<and> is_within [''w'', ''dst''] (join_path [''w'', ''dst''] ''a/../b'')"
  by code_simp

text \<open>
  C1. The claim: no extraction step creates a path outside the destination root. The
  code, on a tar archive with the directory member \<open>widget-main/../other/../dst/y\<close>
  extracted to \<open>/w/dst\<close>: the output path resolves to \<open>/w/dst/y\<close>, inside the root, so
  the member is not passed over; \<open>mkdir\<close> is then given the unresolved path and, making
  its parents, creates the directory \<open>/w/other\<close>, which is outside the root.
\<close>

theorem tar_mkdir_escapes_destination:
  "name (tar_escape ! 1) = ''widget-main/../other/../dst/y''
   \<and> is_within [''w'', ''dst''] (join_path [''w'', ''dst''] ''../other/../dst/y'')
   \<and> fs0 [''w'', ''other''] = None
   \<and> fst (extract_tar_to \<lparr>streamed = False, members = tar_escape\<rparr> [''w'', ''dst''] fs0) = None
   \<and> snd (extract_tar_to \<lparr>streamed = False, members = tar_escape\<rparr> [''w'', ''dst''] fs0)
         [''w'', ''other''] = Some Dir
   \<and> \<not> is_within [''w'', ''dst''] [''w'', ''other'']"
  by code_simp

text \<open>
  The zip extractor resolves the output path before it uses it: on the same entry name
  it creates \<open>/w/dst/y\<close> only.
\<close>

lemma zip_escape_example:
  "fst (extract_zip_to zip_escape [''w'', ''dst''] fs0) = None
   \<and> snd (extract_zip_to zip_escape [''w'', ''dst''] fs0) [''w'', ''other''] = None
   \<and> snd (extract_zip_to zip_escape [''w'', ''dst''] fs0) [''w'', ''dst'', ''y''] = Some Dir"
  by code_simp

subsection \<open>No rollback between tiers\<close>

lemma keeps_refl: "keeps a a"
  by (auto simp: keeps_def split: option.splits node.splits)

lemma keeps_trans: "keeps a b \<Longrightarrow> keeps b c \<Longrightarrow> keeps a c"
  by (auto simp: keeps_def split: option.splits node.splits)

lemma fs_le_refl: "fs_le a a"
  by (simp add: fs_le_def keeps_refl)

lemma fs_le_trans: "fs_le a b \<Longrightarrow> fs_le b c \<Longrightarrow> fs_le a c"
  unfolding fs_le_def by (blast intro: keeps_trans)

lemma fs_le_new: "a t = None \<Longrightarrow> fs_le a (a(t \<mapsto> n))"
  by (auto simp: fs_le_def keeps_def split: option.splits node.splits)

lemma fs_le_file: "a t = Some (File d m) \<Longrightarrow> fs_le a (a(t \<mapsto> File d' m'))"
  by (auto simp: fs_le_def keeps_def split: option.splits node.splits)

lemma os_mkdir_le: "os_mkdir a p = Inr b \<Longrightarrow> fs_le a b"
  by (auto simp: os_mkdir_def intro: fs_le_new split: sum.splits option.splits)

lemma mkdir_once_le: "fs_le a (snd (mkdir_once a p))"
  by (auto simp: mkdir_once_def fs_le_refl dest: os_mkdir_le split: sum.splits exn.splits)

text \<open>
  No operation of the extractors removes a node or changes its kind.
\<close>

lemma mkdir_parents_le: "fs_le a (snd (mkdir_parents a p))"
proof (induction a p rule: mkdir_parents.induct)
  case (1 fs p)
  show ?case
  proof (cases "os_mkdir fs p")
    case (Inr fs')
    then show ?thesis by (simp add: mkdir_parents.simps[of fs p] os_mkdir_le)
  next
    case (Inl e)
    show ?thesis
    proof (cases "\<exists>q. e = FileNotFoundError q")
      case False
      then show ?thesis
        using Inl by (cases e) (simp_all add: mkdir_parents.simps[of fs p] fs_le_refl)
    next
      case True
      then obtain q where e: "e = FileNotFoundError q" by blast
      show ?thesis
      proof (cases "p = []")
        case True
        then show ?thesis using Inl e by (simp add: mkdir_parents.simps[of fs "[]"] fs_le_refl)
      next
        case False
        obtain r fs1 where m: "mkdir_parents fs (parent p) = (r, fs1)"
          by (cases "mkdir_parents fs (parent p)")
        have le1: "fs_le fs fs1" using "1.IH"[OF Inl e False] m by simp
        show ?thesis
        proof (cases r)
          case None
          have "fs_le fs1 (snd (mkdir_once fs1 p))" by (rule mkdir_once_le)
          with le1 have "fs_le fs (snd (mkdir_once fs1 p))" by (rule fs_le_trans)
          then show ?thesis
            using Inl e False m None by (simp add: mkdir_parents.simps[of fs p])
        next
          case (Some e')
          then show ?thesis
            using Inl e False m le1 by (simp add: mkdir_parents.simps[of fs p])
        qed
      qed
    qed
  qed
qed

lemma open_wb_le: "open_wb a p = Inr (t, b) \<Longrightarrow> fs_le a b"
  by (auto simp: open_wb_def intro: fs_le_new fs_le_file
      split: sum.splits option.splits node.splits)

lemma write_data_le: "fs_le a (write_data a t d)"
  by (auto simp: write_data_def fs_le_refl intro: fs_le_file split: option.splits node.splits)

lemma chmod_le: "fs_le a (chmod a t m)"
  by (auto simp: chmod_def fs_le_refl intro: fs_le_file split: option.splits node.splits)

lemma tar_loop_le: "fs_le a (snd (tar_loop tf dst pfx ms a))"
proof (induction ms arbitrary: a)
  case Nil
  then show ?case by (simp add: fs_le_refl)
next
  case (Cons m ms)
  have step: "fs_le a b \<Longrightarrow> fs_le a (snd (tar_loop tf dst pfx ms b))" for b
    using Cons.IH[of b] by (blast intro: fs_le_trans)
  have mk: "mkdir_parents a q = (r, b) \<Longrightarrow> fs_le a b" for q r b
    using mkdir_parents_le[of a q] by simp
  have wr: "open_wb b q = Inr (t, c) \<Longrightarrow> fs_le a b \<Longrightarrow>
              fs_le a (chmod (write_data c t d) t k)" for b q t c d k
    by (blast intro: fs_le_trans open_wb_le write_data_le chmod_le)
  show ?case
    by (auto simp: Let_def Cons.IH intro!: step dest: mk open_wb_le
        intro: fs_le_trans wr fs_le_refl
        split: option.splits prod.splits sum.splits)
qed

lemma zip_loop_le: "fs_le a (snd (zip_loop zf dst pfx ns a))"
proof (induction ns arbitrary: a)
  case Nil
  then show ?case by (simp add: fs_le_refl)
next
  case (Cons n ns)
  have step: "fs_le a b \<Longrightarrow> fs_le a (snd (zip_loop zf dst pfx ns b))" for b
    using Cons.IH[of b] by (blast intro: fs_le_trans)
  have mk: "mkdir_parents a q = (r, b) \<Longrightarrow> fs_le a b" for q r b
    using mkdir_parents_le[of a q] by simp
  have wr: "open_wb b q = Inr (t, c) \<Longrightarrow> fs_le a b \<Longrightarrow> fs_le a (write_data c t d)" for b q t c d
    by (blast intro: fs_le_trans open_wb_le write_data_le)
  have wr': "open_wb b q = Inr (t, c) \<Longrightarrow> fs_le a b \<Longrightarrow>
               fs_le a (chmod (write_data c t d) t k)" for b q t c d k
    by (blast intro: fs_le_trans open_wb_le write_data_le chmod_le)
  show ?case
    by (auto simp: Let_def Cons.IH intro!: step dest: mk
        intro: wr wr' fs_le_refl
        split: option.splits prod.splits sum.splits)
qed

lemma extract_tar_to_le: "fs_le a (snd (extract_tar_to tf dst a))"
  by (simp add: extract_tar_to_def tar_loop_le fs_le_refl split: option.splits)

lemma extract_zip_to_le: "fs_le a (snd (extract_zip_to zf dst a))"
  by (simp add: extract_zip_to_def zip_loop_le)

lemma extract_tar_to_le': "extract_tar_to tf dst a = (r, b) \<Longrightarrow> fs_le a b"
  using extract_tar_to_le[of a tf dst] by simp

lemma extract_zip_to_le': "extract_zip_to zf dst a = (r, b) \<Longrightarrow> fs_le a b"
  using extract_zip_to_le[of a zf dst] by simp

lemma http_files: "files (snd (http net u acc tok w)) = files w"
  by (simp add: http_def Let_def)

lemma download_tar_stream_le: "fs_le (files w) (files (snd (download_tar_stream net u dst w)))"
proof -
  obtain r w1 where h: "http net u None None w = (r, w1)" by (cases "http net u None None w")
  then have f: "files w1 = files w" using http_files[of net u None None w] by simp
  show ?thesis
    by (auto simp: download_tar_stream_def h f fs_le_refl dest: extract_tar_to_le'
        split: sum.splits prod.splits)
qed

lemma fetch_bytes_files: "files (snd (fetch_bytes net u w)) = files w"
  using http_files[of net u None None w]
  by (auto simp: fetch_bytes_def read_url_def split: prod.splits sum.splits)

lemma download_tar_buffered_le: "fs_le (files w) (files (snd (download_tar_buffered net u dst w)))"
proof -
  obtain r w1 where h: "fetch_bytes net u w = (r, w1)" by (cases "fetch_bytes net u w")
  then have f: "files w1 = files w" using fetch_bytes_files[of net u w] by simp
  show ?thesis
    by (auto simp: download_tar_buffered_def h f fs_le_refl dest: extract_tar_to_le'
        split: sum.splits prod.splits)
qed

lemma download_zip_buffered_le: "fs_le (files w) (files (snd (download_zip_buffered net u dst w)))"
proof -
  obtain r w1 where h: "fetch_bytes net u w = (r, w1)" by (cases "fetch_bytes net u w")
  then have f: "files w1 = files w" using fetch_bytes_files[of net u w] by simp
  show ?thesis
    by (auto simp: download_zip_buffered_def h f fs_le_refl dest: extract_zip_to_le'
        split: sum.splits prod.splits)
qed

lemma run_tier_le:
  "fs_le (files w) (files (snd (run_tier net dst owner repo ref_sha branch_name t w)))"
  by (cases t) (simp_all add: download_tar_stream_le download_tar_buffered_le download_zip_buffered_le)

lemma attempts_le:
  "i < length (attempts net dst owner repo ref_sha branch_name ts w) \<Longrightarrow>
   fs_le (files w) (files (snd (snd (attempts net dst owner repo ref_sha branch_name ts w ! i))))"
proof (induction ts arbitrary: w i)
  case Nil
  then show ?case by simp
next
  case (Cons t ts)
  obtain r w1 where rt: "run_tier net dst owner repo ref_sha branch_name t w = (r, w1)"
    by (cases "run_tier net dst owner repo ref_sha branch_name t w")
  have le1: "fs_le (files w) (files w1)"
    using run_tier_le[of w net dst owner repo ref_sha branch_name t] by (simp add: rt)
  show ?case
  proof (cases r)
    case None
    then show ?thesis using Cons.prems le1 by (simp add: rt)
  next
    case (Some e)
    show ?thesis
    proof (cases i)
      case 0
      then show ?thesis using le1 by (simp add: rt Some)
    next
      case (Suc j)
      then have "j < length (attempts net dst owner repo ref_sha branch_name ts w1)"
        using Cons.prems by (simp add: rt Some)
      from Cons.IH[OF this] le1 show ?thesis
        by (auto simp: rt Some Suc intro: fs_le_trans)
    qed
  qed
qed

lemma attempts_chain:
  "i \<le> j \<Longrightarrow> j < length (attempts net dst owner repo ref_sha branch_name ts w) \<Longrightarrow>
   fs_le (files (snd (snd (attempts net dst owner repo ref_sha branch_name ts w ! i))))
         (files (snd (snd (attempts net dst owner repo ref_sha branch_name ts w ! j))))"
proof (induction ts arbitrary: w i j)
  case Nil
  then show ?case by simp
next
  case (Cons t ts)
  obtain r w1 where rt: "run_tier net dst owner repo ref_sha branch_name t w = (r, w1)"
    by (cases "run_tier net dst owner repo ref_sha branch_name t w")
  show ?case
  proof (cases r)
    case None
    then show ?thesis using Cons.prems by (simp add: rt fs_le_refl)
  next
    case (Some e)
    show ?thesis
    proof (cases j)
      case 0
      then show ?thesis using Cons.prems by (simp add: fs_le_refl)
    next
      case (Suc j')
      then have j': "j' < length (attempts net dst owner repo ref_sha branch_name ts w1)"
        using Cons.prems by (simp add: rt Some)
      show ?thesis
      proof (cases i)
        case 0
        then show ?thesis using attempts_le[OF j'] by (simp add: rt Some Suc)
      next
        case (Suc i')
        then have "i' \<le> j'" using Cons.prems \<open>j = Suc j'\<close> by simp
        from Cons.IH[OF this j'] show ?thesis by (simp add: rt Some Suc \<open>j = Suc j'\<close>)
      qed
    qed
  qed
qed

lemma attempts_next:
  "Suc i < length (attempts net dst owner repo ref_sha branch_name ts w) \<Longrightarrow>
   fst (snd (attempts net dst owner repo ref_sha branch_name ts w ! i)) \<noteq> None
   \<and> snd (attempts net dst owner repo ref_sha branch_name ts w ! Suc i) =
       run_tier net dst owner repo ref_sha branch_name
         (fst (attempts net dst owner repo ref_sha branch_name ts w ! Suc i))
         (snd (snd (attempts net dst owner repo ref_sha branch_name ts w ! i)))"
proof (induction ts arbitrary: w i)
  case Nil
  then show ?case by simp
next
  case (Cons t ts)
  obtain r w1 where rt: "run_tier net dst owner repo ref_sha branch_name t w = (r, w1)"
    by (cases "run_tier net dst owner repo ref_sha branch_name t w")
  show ?case
  proof (cases r)
    case None
    then show ?thesis using Cons.prems by (simp add: rt)
  next
    case (Some e)
    show ?thesis
    proof (cases i)
      case 0
      then have ne: "attempts net dst owner repo ref_sha branch_name ts w1 \<noteq> []"
        using Cons.prems by (auto simp: rt Some)
      then obtain t' ts' where ts: "ts = t' # ts'" by (cases ts) auto
      show ?thesis
        by (cases "run_tier net dst owner repo ref_sha branch_name t' w1")
           (auto simp: 0 rt Some ts split: option.splits)
    next
      case (Suc i')
      then have "Suc i' < length (attempts net dst owner repo ref_sha branch_name ts w1)"
        using Cons.prems by (simp add: rt Some)
      from Cons.IH[OF this] show ?thesis by (simp add: rt Some Suc)
    qed
  qed
qed

lemma attempts_nonempty: "attempts net dst owner repo ref_sha branch_name tiers w \<noteq> []"
  by (simp add: tiers_def split: prod.splits option.splits)

lemma download_snapshot_world:
  "snd (download_snapshot net dst owner repo ref_sha branch_name w) =
     snd (snd (last (attempts net dst owner repo ref_sha branch_name tiers w)))"
  using attempts_nonempty[of net dst owner repo ref_sha branch_name w]
  by (simp add: download_snapshot_attempts outcome_of_def)

text \<open>
  C10. There is no cleanup between tiers. The world a tier leaves, whether it failed or
  not, keeps everything the destination held before, and the final world of the cascade
  keeps everything that tier left; and a tier that is followed by another has failed, the
  next one being run in exactly the world it left.
\<close>

theorem no_rollback_between_tiers:
  assumes "i < length (attempts net dst owner repo ref_sha branch_name tiers w)"
  shows "fs_le (files w)
           (files (snd (snd (attempts net dst owner repo ref_sha branch_name tiers w ! i))))
       \<and> fs_le (files (snd (snd (attempts net dst owner repo ref_sha branch_name tiers w ! i))))
           (files (snd (download_snapshot net dst owner repo ref_sha branch_name w)))
       \<and> (Suc i < length (attempts net dst owner repo ref_sha branch_name tiers w) \<longrightarrow>
            fst (snd (attempts net dst owner repo ref_sha branch_name tiers w ! i)) \<noteq> None
            \<and> snd (attempts net dst owner repo ref_sha branch_name tiers w ! Suc i) =
                run_tier net dst owner repo ref_sha branch_name
                  (fst (attempts net dst owner repo ref_sha branch_name tiers w ! Suc i))
                  (snd (snd (attempts net dst owner repo ref_sha branch_name tiers w ! i))))"
proof (intro conjI impI)
  let ?as = "attempts net dst owner repo ref_sha branch_name tiers w"
  show "fs_le (files w) (files (snd (snd (?as ! i))))"
    using assms by (rule attempts_le)
  have ne: "?as \<noteq> []" by (rule attempts_nonempty)
  have l: "last ?as = ?as ! (length ?as - 1)" using ne by (rule last_conv_nth)
  have "fs_le (files (snd (snd (?as ! i)))) (files (snd (snd (?as ! (length ?as - 1)))))"
    using assms ne by (intro attempts_chain) auto
  then show "fs_le (files (snd (snd (?as ! i))))
           (files (snd (download_snapshot net dst owner repo ref_sha branch_name w)))"
    by (simp add: download_snapshot_world l)
next
  assume "Suc i < length (attempts net dst owner repo ref_sha branch_name tiers w)"
  from attempts_next[OF this]
  show "fst (snd (attempts net dst owner repo ref_sha branch_name tiers w ! i)) \<noteq> None"
    and "snd (attempts net dst owner repo ref_sha branch_name tiers w ! Suc i) =
                run_tier net dst owner repo ref_sha branch_name
                  (fst (attempts net dst owner repo ref_sha branch_name tiers w ! Suc i))
                  (snd (snd (attempts net dst owner repo ref_sha branch_name tiers w ! i)))"
    by simp_all
qed

lemma net_leftover_attempts:
  "length (attempts net_leftover [''w'', ''dst''] ''acme'' ''widget'' ''abc1234'' ''main'' tiers w0) = 3
   \<and> map fst (attempts net_leftover [''w'', ''dst''] ''acme'' ''widget'' ''abc1234'' ''main'' tiers w0)
       = [TarStreamSha, TarStreamBranch, TarSha]
   \<and> map (\<lambda>a. fst (snd a)) (attempts net_leftover [''w'', ''dst''] ''acme'' ''widget'' ''abc1234'' ''main'' tiers w0)
       = [Some (StreamError ''seeking backwards is not allowed''), Some (URLError ''down''), None]
   \<and> files w0 [''w'', ''dst'', ''a.txt''] = None
   \<and> files (snd (snd (attempts net_leftover [''w'', ''dst''] ''acme'' ''widget'' ''abc1234'' ''main''
         tiers w0 ! 0))) [''w'', ''dst'', ''a.txt''] = Some (File [] None)"
  by code_simp

text \<open>
  A run in which this shows: the streamed tier creates \<open>/w/dst/a.txt\<close> and fails reading its
  content, the second tier fails, the third succeeds on an archive without that file, and
  the file is still there at the end.
\<close>

theorem no_rollback_between_tiers_witness:
  "length (attempts net_leftover [''w'', ''dst''] ''acme'' ''widget'' ''abc1234'' ''main'' tiers w0) = 3
   \<and> map (\<lambda>a. fst (snd a)) (attempts net_leftover [''w'', ''dst''] ''acme'' ''widget'' ''abc1234'' ''main'' tiers w0)
       = [Some (StreamError ''seeking backwards is not allowed''), Some (URLError ''down''), None]
   \<and> files w0 [''w'', ''dst'', ''a.txt''] = None
   \<and> files (snd (snd (attempts net_leftover [''w'', ''dst''] ''acme'' ''widget'' ''abc1234'' ''main''
         tiers w0 ! 0))) [''w'', ''dst'', ''a.txt''] = Some (File [] None)
   \<and> (\<exists>d m. files (snd (download_snapshot net_leftover [''w'', ''dst''] ''acme'' ''widget''
         ''abc1234'' ''main'' w0)) [''w'', ''dst'', ''a.txt''] = Some (File d m))"
proof -
  let ?as = "attempts net_leftover [''w'', ''dst''] ''acme'' ''widget'' ''abc1234'' ''main'' tiers w0"
  let ?w = "snd (download_snapshot net_leftover [''w'', ''dst''] ''acme'' ''widget'' ''abc1234'' ''main'' w0)"
  have i: "0 < length ?as" using net_leftover_attempts by simp
  have f: "files (snd (snd (?as ! 0))) [''w'', ''dst'', ''a.txt''] = Some (File [] None)"
    using net_leftover_attempts by simp
  have "fs_le (files (snd (snd (?as ! 0)))) (files ?w)"
    using no_rollback_between_tiers[OF i] by simp
  then have "keeps (files (snd (snd (?as ! 0))) [''w'', ''dst'', ''a.txt''])
                   (files ?w [''w'', ''dst'', ''a.txt''])"
    by (simp add: fs_le_def)
  then have "\<exists>d m. files ?w [''w'', ''dst'', ''a.txt''] = Some (File d m)"
    by (auto simp: f keeps_def split: option.splits node.splits)
  then show ?thesis using net_leftover_attempts by simp
qed

subsection \<open>Git Skeleton Synthesizer\<close>

text \<open>
  Path resolution: the path given for error messages does not matter to a successful
  lookup, lookups compose, a lookup without \<open>..\<close> only descends, and a filesystem that
  keeps another resolves every path the other resolves, to the same node.
\<close>

lemma lookup_dir_whole:
  "lookup_dir fs w1 cur xs = Inr d \<Longrightarrow> lookup_dir fs w2 cur xs = Inr d"
  by (induction xs arbitrary: cur) (auto split: option.splits node.splits)

lemma lookup_dir_append:
  "lookup_dir fs w cur (xs @ ys) =
     (case lookup_dir fs w cur xs of Inl e \<Rightarrow> Inl e | Inr d \<Rightarrow> lookup_dir fs w d ys)"
proof (induction xs arbitrary: cur)
  case Nil
  then show ?case by (cases ys) (auto split: option.splits node.splits)
next
  case (Cons x xs)
  then show ?case by (auto split: option.splits node.splits)
qed

lemma lookup_dir_plain:
  "''..'' \<notin> set ys \<Longrightarrow> lookup_dir fs w cur ys = Inr d \<Longrightarrow> d = cur @ ys"
proof (induction ys arbitrary: cur)
  case Nil
  then show ?case by (auto split: option.splits node.splits)
next
  case (Cons y ys)
  from Cons.prems have "lookup_dir fs w (cur @ [y]) ys = Inr d"
    by (auto simp: step_def split: option.splits node.splits)
  with Cons.IH[of "cur @ [y]"] Cons.prems(1) show ?case by simp
qed

lemma lookup_dir_le:
  "fs_le a b \<Longrightarrow> lookup_dir a w cur xs = Inr d \<Longrightarrow> lookup_dir b w cur xs = Inr d"
proof (induction xs arbitrary: cur)
  case Nil
  from Nil.prems(1) have "keeps (a cur) (b cur)" by (simp add: fs_le_def)
  with Nil.prems(2) show ?case by (auto simp: keeps_def split: option.splits node.splits)
next
  case (Cons x xs)
  from Cons.prems(1) have "keeps (a cur) (b cur)" by (simp add: fs_le_def)
  with Cons.prems(2) Cons.IH[OF Cons.prems(1)] show ?case
    by (auto simp: keeps_def split: option.splits node.splits)
qed

lemma target_le: "fs_le a b \<Longrightarrow> target a p = Inr t \<Longrightarrow> target b p = Inr t"
  by (auto simp: target_def dest: lookup_dir_le split: if_splits sum.splits)

lemma target_tail:
  assumes "''..'' \<notin> set tail" and "tail \<noteq> []" and "target fs (pre @ tail) = Inr t"
  shows "\<exists>D. lookup_dir fs w [] pre = Inr D \<and> t = D @ tail"
proof -
  let ?p = "pre @ tail"
  have bl: "butlast ?p = pre @ butlast tail" "last ?p = last tail"
    using assms(2) by (simp_all add: butlast_append)
  from assms(3) obtain d where d: "lookup_dir fs ?p [] (pre @ butlast tail) = Inr d"
    and t: "t = step d (last tail)"
    using assms(2) by (auto simp: target_def bl split: sum.splits)
  from d obtain D where D: "lookup_dir fs ?p [] pre = Inr D"
    and d2: "lookup_dir fs ?p D (butlast tail) = Inr d"
    by (auto simp: lookup_dir_append split: sum.splits)
  have nb: "''..'' \<notin> set (butlast tail)" using assms(1) by (auto dest: in_set_butlastD)
  from lookup_dir_plain[OF nb d2] have "d = D @ butlast tail" .
  moreover have "last tail \<noteq> ''..''" using assms(1,2) by (metis last_in_set)
  ultimately have "t = D @ tail" using t assms(2) by (simp add: step_def)
  with lookup_dir_whole[OF D] show ?thesis by blast
qed

lemma targets_differ:
  assumes "''..'' \<notin> set tail1" "tail1 \<noteq> []" "target fs (pre @ tail1) = Inr t1"
    and "''..'' \<notin> set tail2" "tail2 \<noteq> []" "target fs (pre @ tail2) = Inr t2"
    and "tail1 \<noteq> tail2"
  shows "t1 \<noteq> t2"
proof -
  from target_tail[OF assms(1,2,3), of "[]"] obtain D1 where
    a: "lookup_dir fs [] [] pre = Inr D1" "t1 = D1 @ tail1" by blast
  from target_tail[OF assms(4,5,6), of "[]"] obtain D2 where
    b: "lookup_dir fs [] [] pre = Inr D2" "t2 = D2 @ tail2" by blast
  from a b assms(7) show ?thesis by simp
qed

text \<open>
  Both ways of writing text are successful writes; a write can be read back, and leaves
  the content of every other file below the same directory as it was.
\<close>

lemma write_text_wrote: "write_text a p x = (None, b) \<Longrightarrow> wrote a p x b"
  by (auto simp: write_text_def open_wb_def write_data_def wrote_def
      split: sum.splits option.splits node.splits prod.splits)

lemma write_text_ascii_wrote: "write_text_ascii a p x = (None, b) \<Longrightarrow> wrote a p x b"
  by (auto simp: write_text_ascii_def open_wb_def write_data_def wrote_def
      split: sum.splits option.splits node.splits prod.splits if_splits)

lemma wrote_le: "wrote a p x b \<Longrightarrow> fs_le a b"
  by (auto simp: wrote_def fs_le_def keeps_def split: option.splits node.splits if_splits)

lemma wrote_self: "wrote a p x b \<Longrightarrow> read_file b p = Some x"
proof -
  assume w: "wrote a p x b"
  then obtain t m where t: "target a p = Inr t" "b = a(t \<mapsto> File x m)"
    by (auto simp: wrote_def)
  from target_le[OF wrote_le[OF w] t(1)] t(2) show ?thesis by (simp add: read_file_def)
qed

lemma wrote_other:
  assumes "wrote a (pre @ tail2) x b" and "read_file a (pre @ tail1) = Some d"
    and "''..'' \<notin> set tail1" "tail1 \<noteq> []" "''..'' \<notin> set tail2" "tail2 \<noteq> []" "tail1 \<noteq> tail2"
  shows "read_file b (pre @ tail1) = Some d"
proof -
  from assms(1) obtain t2 m where t2: "target a (pre @ tail2) = Inr t2" "b = a(t2 \<mapsto> File x m)"
    by (auto simp: wrote_def)
  from assms(2) obtain t1 m1 where t1: "target a (pre @ tail1) = Inr t1" "a t1 = Some (File d m1)"
    by (auto simp: read_file_def split: sum.splits option.splits node.splits)
  have ne: "t1 \<noteq> t2"
    using targets_differ[OF assms(3,4) t1(1) assms(5,6) t2(1) assms(7)] .
  from target_le[OF wrote_le[OF assms(1)] t1(1)] t1(2) t2(2) ne
  show ?thesis by (simp add: read_file_def)
qed

lemma run_all_Cons_None:
  "run_all (a # as) fs = (None, fs') \<longleftrightarrow> (\<exists>fs1. a fs = (None, fs1) \<and> run_all as fs1 = (None, fs'))"
  by (auto split: prod.splits option.splits)

lemma join_path_relative:
  "(b = [] \<or> hd b \<noteq> CHR ''/'') \<Longrightarrow> join_path base b = base @ path_parts b"
  by (auto simp: join_path_def)

text \<open>
  The synthesizer alone: when it returns normally for a branch name of the kind above,
  the four files hold what the claim says.
\<close>

lemma skeleton_contents:
  assumes ok: "write_git_skeleton dst remote_url b s fs = (None, fs')" and b: "branch_ok b"
  shows "read_file fs' (join_path (join_path dst ''.git'') ''HEAD'')
           = Some (''ref: refs/heads/'' @ b @ nl)
       \<and> read_file fs' (join_path (join_path (join_path dst ''.git'') ''refs/heads'') b)
           = Some (s @ nl)
       \<and> read_file fs' (join_path (join_path (join_path dst ''.git'') ''refs/remotes/origin'') b)
           = Some (s @ nl)
       \<and> read_file fs' (join_path (join_path (join_path dst ''.git'') ''refs/remotes/upstream'') b)
           = Some (s @ nl)"
proof -
  define G where "G = dst @ [''.git'']"
  define pb where "pb = path_parts b"
  have rel: "b = [] \<or> hd b \<noteq> CHR ''/''" and nd: "''..'' \<notin> set pb"
    using b by (auto simp: branch_ok_def pb_def)
  have pG: "join_path dst ''.git'' = G"
    by (simp add: join_path_def path_parts_def G_def)
  have pH: "join_path G ''HEAD'' = G @ [''HEAD'']"
    and pC: "join_path G ''config'' = G @ [''config'']"
    and pP: "join_path G ''objects/info/promisor'' = G @ [''objects'', ''info'', ''promisor'']"
    and p1: "join_path (join_path G ''refs/heads'') b = G @ ([''refs'', ''heads''] @ pb)"
    and p2: "join_path (join_path G ''refs/remotes/origin'') b
               = G @ ([''refs'', ''remotes'', ''origin''] @ pb)"
    and p3: "join_path (join_path G ''refs/remotes/upstream'') b
               = G @ ([''refs'', ''remotes'', ''upstream''] @ pb)"
    using rel by (simp_all add: join_path_relative pb_def) (simp_all add: join_path_def path_parts_def)
  from ok[unfolded write_git_skeleton_def Let_def pG pH pC pP p1 p2 p3 run_all_Cons_None]
  obtain f4 f5 f6 f7 f8 f9 where
        w5: "write_text f4 (G @ [''HEAD'']) (''ref: refs/heads/'' @ b @ nl) = (None, f5)"
    and w6: "write_text_ascii f5 (G @ ([''refs'', ''heads''] @ pb)) (s @ nl) = (None, f6)"
    and w7: "write_text_ascii f6 (G @ ([''refs'', ''remotes'', ''origin''] @ pb)) (s @ nl) = (None, f7)"
    and w8: "write_text_ascii f7 (G @ ([''refs'', ''remotes'', ''upstream''] @ pb)) (s @ nl) = (None, f8)"
    and w9: "write_text f8 (G @ [''config'']) (git_config remote_url b) = (None, f9)"
    and w10: "write_text f9 (G @ [''objects'', ''info'', ''promisor'']) (''promisor'' @ nl) = (None, fs')"
    by auto
  note wr = write_text_wrote[OF w5] write_text_ascii_wrote[OF w6] write_text_ascii_wrote[OF w7]
    write_text_ascii_wrote[OF w8] write_text_wrote[OF w9] write_text_wrote[OF w10]
  have keep: "read_file c (G @ t1) = Some d"
    if "wrote a (G @ t2) x c" "read_file a (G @ t1) = Some d" "t1 \<noteq> t2"
      "''..'' \<notin> set t1" "t1 \<noteq> []" "''..'' \<notin> set t2" "t2 \<noteq> []" for a c t1 t2 x d
    using wrote_other[OF that(1,2,4,5,6,7,3)] .
  have h5: "read_file f5 (G @ [''HEAD'']) = Some (''ref: refs/heads/'' @ b @ nl)"
    using wr(1) by (rule wrote_self)
  have h6: "read_file f6 (G @ [''HEAD'']) = Some (''ref: refs/heads/'' @ b @ nl)"
    using nd by (intro keep[OF wr(2) h5]) simp_all
  have h7: "read_file f7 (G @ [''HEAD'']) = Some (''ref: refs/heads/'' @ b @ nl)"
    using nd by (intro keep[OF wr(3) h6]) simp_all
  have h8: "read_file f8 (G @ [''HEAD'']) = Some (''ref: refs/heads/'' @ b @ nl)"
    using nd by (intro keep[OF wr(4) h7]) simp_all
  have h9: "read_file f9 (G @ [''HEAD'']) = Some (''ref: refs/heads/'' @ b @ nl)"
    by (intro keep[OF wr(5) h8]) simp_all
  have h10: "read_file fs' (G @ [''HEAD'']) = Some (''ref: refs/heads/'' @ b @ nl)"
    by (intro keep[OF wr(6) h9]) simp_all
  have a6: "read_file f6 (G @ ([''refs'', ''heads''] @ pb)) = Some (s @ nl)"
    using wr(2) by (rule wrote_self)
  have a7: "read_file f7 (G @ ([''refs'', ''heads''] @ pb)) = Some (s @ nl)"
    using nd by (intro keep[OF wr(3) a6]) simp_all
  have a8: "read_file f8 (G @ ([''refs'', ''heads''] @ pb)) = Some (s @ nl)"
    using nd by (intro keep[OF wr(4) a7]) simp_all
  have a9: "read_file f9 (G @ ([''refs'', ''heads''] @ pb)) = Some (s @ nl)"
    using nd by (intro keep[OF wr(5) a8]) simp_all
  have a10: "read_file fs' (G @ ([''refs'', ''heads''] @ pb)) = Some (s @ nl)"
    using nd by (intro keep[OF wr(6) a9]) simp_all
  have o7: "read_file f7 (G @ ([''refs'', ''remotes'', ''origin''] @ pb)) = Some (s @ nl)"
    using wr(3) by (rule wrote_self)
  have o8: "read_file f8 (G @ ([''refs'', ''remotes'', ''origin''] @ pb)) = Some (s @ nl)"
    using nd by (intro keep[OF wr(4) o7]) simp_all
  have o9: "read_file f9 (G @ ([''refs'', ''remotes'', ''origin''] @ pb)) = Some (s @ nl)"
    using nd by (intro keep[OF wr(5) o8]) simp_all
  have o10: "read_file fs' (G @ ([''refs'', ''remotes'', ''origin''] @ pb)) = Some (s @ nl)"
    using nd by (intro keep[OF wr(6) o9]) simp_all
  have u8: "read_file f8 (G @ ([''refs'', ''remotes'', ''upstream''] @ pb)) = Some (s @ nl)"
    using wr(4) by (rule wrote_self)
  have u9: "read_file f9 (G @ ([''refs'', ''remotes'', ''upstream''] @ pb)) = Some (s @ nl)"
    using nd by (intro keep[OF wr(5) u8]) simp_all
  have u10: "read_file fs' (G @ ([''refs'', ''remotes'', ''upstream''] @ pb)) = Some (s @ nl)"
    using nd by (intro keep[OF wr(6) u9]) simp_all
  show ?thesis
    unfolding pG pH p1 p2 p3 using h10 a10 o10 u10 by simp
qed

text \<open>
  C8, as the code has it. After a run of \<open>bootstrap\<close> that returns normally, with the
  branch b and the commit id s that reference resolution gave, and b a relative name
  without a \<open>..\<close> segment: \<open>.git/HEAD\<close> holds exactly \<open>ref: refs/heads/\<close>, b and a newline,
  and \<open>.git/refs/heads/b\<close>, \<open>.git/refs/remotes/origin/b\<close> and
  \<open>.git/refs/remotes/upstream/b\<close> each hold exactly s and a newline.
\<close>

theorem successful_run_head_and_refs:
  assumes "bootstrap net tok repo_url dst w = (None, w')"
    and "owner_repo repo_url = Inr (owner, repo)"
    and "resolve_ref net tok owner repo w = (Inr (b, s), w2)"
    and "branch_ok b"
  shows "read_file (files w') (join_path (join_path dst ''.git'') ''HEAD'')
           = Some (''ref: refs/heads/'' @ b @ nl)
       \<and> read_file (files w') (join_path (join_path (join_path dst ''.git'') ''refs/heads'') b)
           = Some (s @ nl)
       \<and> read_file (files w') (join_path (join_path (join_path dst ''.git'') ''refs/remotes/origin'') b)
           = Some (s @ nl)
       \<and> read_file (files w') (join_path (join_path (join_path dst ''.git'') ''refs/remotes/upstream'') b)
           = Some (s @ nl)"
proof -
  from assms(1,2,3) obtain w3 fs' where
    "write_git_skeleton dst repo_url b s (files w3) = (None, fs')" and "w' = w3\<lparr>files := fs'\<rparr>"
    by (auto simp: bootstrap_def split: prod.splits option.splits)
  with skeleton_contents[OF _ assms(4)] show ?thesis by simp
qed

lemma net_api_run:
  "fst (bootstrap net_api None ''https://github.com/acme/widget'' [''w'', ''dst''] w0) = None
   \<and> owner_repo ''https://github.com/acme/widget'' = Inr (''acme'', ''widget'')
   \<and> fst (resolve_ref net_api None ''acme'' ''widget'' w0) = Inr (''main'', sha_b)
   \<and> branch_ok ''main''
   \<and> read_file (files (snd (bootstrap net_api None ''https://github.com/acme/widget'' [''w'', ''dst''] w0)))
        [''w'', ''dst'', ''a.txt''] = Some ''abc''"
  by code_simp

theorem successful_run_head_and_refs_witness:
  "fst (bootstrap net_api None ''https://github.com/acme/widget'' [''w'', ''dst''] w0) = None
   \<and> fst (resolve_ref net_api None ''acme'' ''widget'' w0) = Inr (''main'', sha_b)
   \<and> branch_ok ''main''
   \<and> read_file (files (snd (bootstrap net_api None ''https://github.com/acme/widget'' [''w'', ''dst''] w0)))
        [''w'', ''dst'', ''.git'', ''HEAD''] = Some (''ref: refs/heads/main'' @ nl)
   \<and> read_file (files (snd (bootstrap net_api None ''https://github.com/acme/widget'' [''w'', ''dst''] w0)))
        [''w'', ''dst'', ''.git'', ''refs'', ''heads'', ''main''] = Some (sha_b @ nl)
   \<and> read_file (files (snd (bootstrap net_api None ''https://github.com/acme/widget'' [''w'', ''dst''] w0)))
        [''w'', ''dst'', ''.git'', ''refs'', ''remotes'', ''origin'', ''main''] = Some (sha_b @ nl)
   \<and> read_file (files (snd (bootstrap net_api None ''https://github.com/acme/widget'' [''w'', ''dst''] w0)))
        [''w'', ''dst'', ''.git'', ''refs'', ''remotes'', ''upstream'', ''main''] = Some (sha_b @ nl)"
proof -
  let ?r = "bootstrap net_api None ''https://github.com/acme/widget'' [''w'', ''dst''] w0"
  let ?q = "resolve_ref net_api None ''acme'' ''widget'' w0"
  have r: "?r = (None, snd ?r)" using net_api_run by (simp add: prod_eq_iff)
  have q: "?q = (Inr (''main'', sha_b), snd ?q)" using net_api_run by (simp add: prod_eq_iff)
  have o: "owner_repo ''https://github.com/acme/widget'' = Inr (''acme'', ''widget'')"
    using net_api_run by simp
  have b: "branch_ok ''main''" using net_api_run by simp
  show ?thesis
    using successful_run_head_and_refs[OF r o q b] net_api_run
    by (simp add: join_path_def path_parts_def)
qed

text \<open>
  C8 as claimed, for every resolved branch, fails: when the API names the default branch
  \<open>../../HEAD\<close> the run succeeds, the path \<open>.git/refs/heads/../../HEAD\<close> is the file
  \<open>.git/HEAD\<close> itself, and that file ends up holding the commit id.
\<close>

theorem head_overwritten_counterexample:
  "fst (bootstrap net_dotdot None ''https://github.com/acme/widget'' [''w'', ''dst''] w0) = None
   \<and> fst (resolve_ref net_dotdot None ''acme'' ''widget'' w0) = Inr (''../../HEAD'', sha_b)
   \<and> read_file (files (snd (bootstrap net_dotdot None ''https://github.com/acme/widget''
                              [''w'', ''dst''] w0)))
         (join_path (join_path [''w'', ''dst''] ''.git'') ''HEAD'') = Some (sha_b @ nl)
   \<and> sha_b @ nl \<noteq> ''ref: refs/heads/'' @ ''../../HEAD'' @ nl"
  by code_simp

subsection \<open>Exit status\<close>

text \<open>
  C9, as the code has it. Invoked on an existing destination without the overwrite flag,
  \<open>main\<close> prints the message for an existing directory and ends with status 1, the
  filesystem and the request log being as they were. In every other run in which the
  destination could be made, the status follows what \<open>bootstrap\<close> did: 0 when it returned
  normally, 2 when it raised an exception, which the handler of \<open>main\<close> reports, and 1
  when it raised \<open>SystemExit\<close>, which is how the URL is rejected.
\<close>

theorem exit_status_of_main:
  "(exists_path (files w) dst \<and> \<not> force \<longrightarrow>
      main net tok repo_url dst force w =
        (1, w\<lparr>stderr := stderr w @ [Printed (msg_dir_exists @ str_path dst)]\<rparr>))
   \<and> (\<not> (exists_path (files w) dst \<and> \<not> force)
        \<and> mkdir_parents (files (cleared w dst)) dst = (None, made)
        \<and> bootstrap net tok repo_url dst ((cleared w dst)\<lparr>files := made\<rparr>) = (r, after) \<longrightarrow>
      fst (main net tok repo_url dst force w) =
        (case r of None \<Rightarrow> 0 | Some (Exception e) \<Rightarrow> 2 | Some (SystemExit m) \<Rightarrow> 1))"
  by (auto simp: main_def split: option.splits raised.splits)

lemma main_runs:
  "exists_path (files w0) [''w'', ''dst'']
   \<and> \<not> exists_path (files w0) [''w'', ''new'']
   \<and> fst (mkdir_parents (files (cleared w0 [''w'', ''new''])) [''w'', ''new'']) = None
   \<and> fst (bootstrap net_api None ''https://github.com/acme/widget'' [''w'', ''new'']
         ((cleared w0 [''w'', ''new''])\<lparr>files :=
            snd (mkdir_parents (files (cleared w0 [''w'', ''new''])) [''w'', ''new''])\<rparr>)) = None
   \<and> fst (bootstrap net_down None ''https://github.com/acme/widget'' [''w'', ''new'']
         ((cleared w0 [''w'', ''new''])\<lparr>files :=
            snd (mkdir_parents (files (cleared w0 [''w'', ''new''])) [''w'', ''new''])\<rparr>))
       = Some (Exception (RuntimeError msg_html_failed))"
  by code_simp

theorem exit_status_of_main_witness:
  "exists_path (files w0) [''w'', ''dst'']
   \<and> main net_api None ''https://github.com/acme/widget'' [''w'', ''dst''] False w0 =
       (1, w0\<lparr>stderr := stderr w0 @ [Printed (msg_dir_exists @ ''/w/dst'')]\<rparr>)
   \<and> \<not> exists_path (files w0) [''w'', ''new'']
   \<and> fst (main net_api None ''https://github.com/acme/widget'' [''w'', ''new''] False w0) = 0
   \<and> fst (main net_down None ''https://github.com/acme/widget'' [''w'', ''new''] False w0) = 2"
proof -
  let ?u = "''https://github.com/acme/widget''"
  let ?fs1 = "snd (mkdir_parents (files (cleared w0 [''w'', ''new''])) [''w'', ''new''])"
  let ?w = "(cleared w0 [''w'', ''new''])\<lparr>files := ?fs1\<rparr>"
  have m: "mkdir_parents (files (cleared w0 [''w'', ''new''])) [''w'', ''new''] = (None, ?fs1)"
    using main_runs by (simp add: prod_eq_iff)
  have b1: "bootstrap net_api None ?u [''w'', ''new''] ?w =
              (None, snd (bootstrap net_api None ?u [''w'', ''new''] ?w))"
    using main_runs by (simp add: prod_eq_iff)
  have b2: "bootstrap net_down None ?u [''w'', ''new''] ?w =
              (Some (Exception (RuntimeError msg_html_failed)),
               snd (bootstrap net_down None ?u [''w'', ''new''] ?w))"
    using main_runs by (simp add: prod_eq_iff)
  have s: "str_path [''w'', ''dst''] = ''/w/dst''" by (simp add: str_path_def)
  show ?thesis
    using exit_status_of_main[where w = w0 and dst = "[''w'', ''dst'']" and force = False
        and net = net_api and tok = None and repo_url = ?u and made = ?fs1 and r = None and after = w0]
      exit_status_of_main[where w = w0 and dst = "[''w'', ''new'']" and force = False
        and net = net_api and tok = None and repo_url = ?u and made = ?fs1 and r = None
        and after = "snd (bootstrap net_api None ?u [''w'', ''new''] ?w)"]
      exit_status_of_main[where w = w0 and dst = "[''w'', ''new'']" and force = False
        and net = net_down and tok = None and repo_url = ?u and made = ?fs1
        and r = "Some (Exception (RuntimeError msg_html_failed))"
        and after = "snd (bootstrap net_down None ?u [''w'', ''new''] ?w)"]
      main_runs m b1 b2 s
    by simp
qed

text \<open>
  C9 as claimed, status 1 telling the existing destination apart from every failing run,
  fails: a run on a fresh destination whose URL does not name GitHub is rejected by
  \<open>_owner_repo\<close> with \<open>SystemExit\<close> and a message, and ends with status 1 as well. So does
  a run whose destination cannot be made because \<open>/w/file\<close> is a regular file: the
  \<open>mkdir\<close> of \<open>main\<close> stands outside its \<open>try\<close>.
\<close>

theorem failing_runs_with_status_one_counterexample:
  "exists_path (files w0) [''w'', ''dst'']
   \<and> fst (main net_api None ''https://github.com/acme/widget'' [''w'', ''dst''] False w0) = 1
   \<and> \<not> exists_path (files w0) [''w'', ''new'']
   \<and> fst (bootstrap net_api None ''https://example.com/acme/widget'' [''w'', ''new'']
         ((cleared w0 [''w'', ''new''])\<lparr>files :=
            snd (mkdir_parents (files (cleared w0 [''w'', ''new''])) [''w'', ''new''])\<rparr>))
       = Some (SystemExit msg_github_only)
   \<and> fst (main net_api None ''https://example.com/acme/widget'' [''w'', ''new''] False w0) = 1
   \<and> \<not> exists_path (files w_file) [''w'', ''file'', ''sub'']
   \<and> fst (mkdir_parents (files (cleared w_file [''w'', ''file'', ''sub''])) [''w'', ''file'', ''sub''])
       = Some (NotADirectoryError [''w'', ''file'', ''sub''])
   \<and> fst (main net_api None ''https://github.com/acme/widget'' [''w'', ''file'', ''sub''] False w_file) = 1"
  by code_simp

end
